theory Spec2Isabelle
  imports
    Main
    "HOL-Library.Char_ord"
    "HOL-Library.List_Lexorder"
    "HOL-Library.Product_Lexorder"
begin

section \<open>Data model\<close>

text \<open>
  The script keeps the inventory in a pandas DataFrame with the columns
  \<^verbatim>\<open>id, hostname, address, created, modified\<close>. A row of the frame is an agent record.
  While pages are fetched the two time columns hold the strings of the wire format; lines
  102--103 replace them by \<^verbatim>\<open>datetime64[ns]\<close> values, where \<^verbatim>\<open>NaT\<close> stands for a
  string that did not parse. The record is therefore polymorphic in the type of its time
  columns: \<open>string agent\<close> before the conversion, \<open>timestamp option agent\<close> after it
  (\<open>None\<close> is \<^verbatim>\<open>NaT\<close>, \<open>Some t\<close> is \<open>t\<close> nanoseconds since the epoch).
\<close>

type_synonym timestamp = int

record 't agent =
  agent_id :: string
  hostname :: string
  address :: string
  created :: 't
  modified :: 't

text \<open>
  A DataFrame is the list of its rows in frame order, every row carrying its index label.
  Boolean-mask selection and sorting keep the label of a row, and line 115 compares labels.
\<close>

type_synonym row = "nat \<times> timestamp option agent"
type_synonym dataframe = "row list"

text \<open>
  Everything \<^verbatim>\<open>log_debug\<close> is called with, one constructor per call site. The time stamp
  that \<^verbatim>\<open>log_debug\<close> puts in front of the message is left out.
\<close>

datatype log_entry =
  Fetching
  | FetchError string
  | Identifying
  | Found nat
  | Marked nat
  | Starting
  | Announce bool string string string
  | Uninstalled string string string "timestamp option" "timestamp option"
  | UninstallFailed string string string "string option" "string option"
  | UninstallError string string

section \<open>The Duplicate Selector\<close>

definition key_of :: "row \<Rightarrow> string \<times> string" where
  "key_of r = (hostname (snd r), address (snd r))"

text \<open>
  \<^verbatim>\<open>DataFrame.duplicated(["hostname", "address"], keep=False)\<close>: the mask is true at
  every row whose (hostname, address) pair occurs more than once in the frame.
\<close>

definition duplicated :: "dataframe \<Rightarrow> row \<Rightarrow> bool" where
  "duplicated df r \<longleftrightarrow> 1 < length (filter (\<lambda>r'. key_of r' = key_of r) df)"

text \<open>
  \<^verbatim>\<open>sort_values\<close> on several columns goes through pandas' \<^verbatim>\<open>lexsort_indexer\<close>: every
  column is replaced by the rank of its value among the column's values, a missing value
  gets the rank after all others (\<^verbatim>\<open>na_position="last"\<close>, the default, in ascending and
  in descending columns alike), the ranks of a descending column are reversed except for
  the missing values, and the rows are sorted by the tuple of ranks with the stable
  \<^verbatim>\<open>numpy.lexsort\<close>. The two codes below are order-isomorphic to these ranks: the first
  component puts \<^verbatim>\<open>NaT\<close> last, the second orders the present values, negated for the
  descending column. Strings compare as in Python, lexicographically by character.
\<close>

definition modified_code :: "timestamp option \<Rightarrow> nat \<times> int" where
  "modified_code m = (case m of None \<Rightarrow> (1, 0) | Some t \<Rightarrow> (0, - t))"

definition created_code :: "timestamp option \<Rightarrow> nat \<times> int" where
  "created_code c = (case c of None \<Rightarrow> (1, 0) | Some t \<Rightarrow> (0, t))"

definition lexsort_key :: "row \<Rightarrow> string \<times> string \<times> (nat \<times> int) \<times> (nat \<times> int)" where
  "lexsort_key r =
     (hostname (snd r), address (snd r),
      modified_code (modified (snd r)), created_code (created (snd r)))"

definition sort_values :: "dataframe \<Rightarrow> dataframe" where
  "sort_values df = sort_key lexsort_key df"

text \<open>
  \<^verbatim>\<open>drop_duplicates(subset=["hostname", "address"], keep="first")\<close>: of the rows with
  one key only the first in frame order stays.
\<close>

fun drop_duplicates :: "dataframe \<Rightarrow> dataframe" where
  "drop_duplicates [] = []"
| "drop_duplicates (r # rs) = r # filter (\<lambda>r'. key_of r' \<noteq> key_of r) (drop_duplicates rs)"

text \<open>
  \<^verbatim>\<open>find_duplicate_agents\<close>, lines 106--119. The log is threaded through; the frame passed
  in is not changed by any of the calls (each of them builds a new frame).
\<close>

definition find_duplicate_agents :: "log_entry list \<Rightarrow> dataframe \<Rightarrow> log_entry list \<times> dataframe" where
  "find_duplicate_agents lg agents_data =
     (let lg1 = lg @ [Identifying];
          duplicates = filter (duplicated agents_data) agents_data;
          sorted_duplicates = sort_values duplicates;
          latest_entries = drop_duplicates sorted_duplicates;
          to_remove = filter (\<lambda>r. fst r \<notin> set (map fst latest_entries)) sorted_duplicates;
          lg2 = lg1 @ [Found (length duplicates)];
          lg3 = lg2 @ [Marked (length to_remove)]
      in (lg3, to_remove))"

section \<open>Documents returned by the remote API\<close>

text \<open>
  \<^verbatim>\<open>xml.etree.ElementTree\<close> elements: a tag, the text before the first child
  (\<^verbatim>\<open>None\<close> when there is none) and the children in document order. Attributes are
  never read by the script.
\<close>

datatype element =
  Element (elem_tag: string) (elem_text: "string option") (elem_children: "element list")

text \<open>
  \<^verbatim>\<open>elem.findtext(path)\<close> for a path that is one tag: the text of the first child with
  that tag, the empty string when that child has no text, and Python's \<^verbatim>\<open>None\<close> when
  there is no such child.
\<close>

definition findtext :: "element \<Rightarrow> string \<Rightarrow> string option" where
  "findtext e path =
     (case find (\<lambda>c. elem_tag c = path) (elem_children e) of
        None \<Rightarrow> None
      | Some c \<Rightarrow> (case elem_text c of None \<Rightarrow> Some [] | Some t \<Rightarrow> Some t))"

text \<open>\<^verbatim>\<open>elem.findtext(path, default="")\<close>: as before, with the empty string for a missing child.\<close>

definition findtext_default :: "element \<Rightarrow> string \<Rightarrow> string" where
  "findtext_default e path = (case findtext e path of None \<Rightarrow> [] | Some t \<Rightarrow> t)"

text \<open>
  \<^verbatim>\<open>root.findall("data/HostAsset")\<close>: the \<^verbatim>\<open>HostAsset\<close> children of the \<^verbatim>\<open>data\<close>
  children of the root, in document order.
\<close>

definition findall_data_HostAsset :: "element \<Rightarrow> element list" where
  "findall_data_HostAsset root =
     concat (map (\<lambda>d. filter (\<lambda>c. elem_tag c = ''HostAsset'') (elem_children d))
                 (filter (\<lambda>c. elem_tag c = ''data'') (elem_children root)))"

text \<open>
  What the three lines \<^verbatim>\<open>requests.post\<close>, \<^verbatim>\<open>raise_for_status\<close>, \<^verbatim>\<open>ET.fromstring\<close>
  produce: a \<^verbatim>\<open>requests.exceptions.RequestException\<close> (no connection, a time-out, a
  status of 400 and above), another exception (a body that is not XML), or the root of
  the parsed document. The remote side is a function from the number of calls made
  before and the call to its outcome.
\<close>

datatype http_outcome =
  RequestException string
  | OtherException string
  | Document element

section \<open>The Inventory Fetcher\<close>

record search_request =
  tracking_method :: string
  limitResults :: nat
  startFromOffset :: nat

definition request_payload :: "nat \<Rightarrow> search_request" where
  "request_payload offset =
     \<lparr>tracking_method = ''QAGENT'', limitResults = 1000, startFromOffset = offset\<rparr>"

text \<open>Lines 78--90; \<open>lower\<close> is Python's \<^verbatim>\<open>str.lower\<close>.\<close>

definition new_row :: "(string \<Rightarrow> string) \<Rightarrow> element \<Rightarrow> string agent" where
  "new_row lower entry =
     \<lparr>agent_id = findtext_default entry ''id'',
      hostname = lower (findtext_default entry ''name''),
      address = findtext_default entry ''address'',
      created = findtext_default entry ''created'',
      modified = findtext_default entry ''modified''\<rparr>"

text \<open>
  The \<^verbatim>\<open>while True\<close> loop of lines 59--100. It need not end (a server may answer
  \<^verbatim>\<open>hasMoreRecords = true\<close> for ever), so the result is an option: \<open>None\<close> is a loop
  that never returns. The result holds the log, the requests sent, and either the message
  of an exception that leaves the function (\<open>Inl\<close>) or the rows gathered (\<open>Inr\<close>).
\<close>

partial_function (option) fetch_loop ::
  "(string \<Rightarrow> string) \<Rightarrow> (nat \<Rightarrow> search_request \<Rightarrow> http_outcome) \<Rightarrow> nat \<Rightarrow> string agent list \<Rightarrow>
   log_entry list \<Rightarrow> search_request list \<Rightarrow>
   (log_entry list \<times> search_request list \<times> (string + string agent list)) option" where
  "fetch_loop lower server offset agents_data lg sent =
     (case server (length sent) (request_payload offset) of
        RequestException e \<Rightarrow>
          Some (lg @ [FetchError e], sent @ [request_payload offset], Inr agents_data)
      | OtherException e \<Rightarrow>
          Some (lg, sent @ [request_payload offset], Inl e)
      | Document root \<Rightarrow>
          (if findtext root ''hasMoreRecords'' = Some ''true''
           then fetch_loop lower server (offset + 1000)
                  (agents_data @ map (new_row lower) (findall_data_HostAsset root))
                  lg (sent @ [request_payload offset])
           else Some (lg, sent @ [request_payload offset],
                  Inr (agents_data @ map (new_row lower) (findall_data_HostAsset root)))))"

text \<open>
  Lines 102--103. \<open>to_datetime\<close> stands for
  \<^verbatim>\<open>pd.to_datetime(column, errors="coerce", utc=True).dt.tz_localize(None)\<close>, a function
  of the whole column that returns one value for each string. The frame built by
  \<^verbatim>\<open>pd.concat(..., ignore_index=True)\<close> has the index labels \<open>0, 1, 2, \<dots>\<close>.
\<close>

definition convert_times :: "(string list \<Rightarrow> timestamp option list) \<Rightarrow> string agent list \<Rightarrow> dataframe" where
  "convert_times to_datetime agents_data =
     map (\<lambda>(i, a, c, m).
            (i, \<lparr>agent_id = agent_id a, hostname = hostname a, address = address a,
                 created = c, modified = m\<rparr>))
         (zip [0..<length agents_data]
            (zip agents_data
               (zip (to_datetime (map created agents_data))
                    (to_datetime (map modified agents_data)))))"

definition fetch_cloud_agents ::
  "(string \<Rightarrow> string) \<Rightarrow> (string list \<Rightarrow> timestamp option list) \<Rightarrow>
   (nat \<Rightarrow> search_request \<Rightarrow> http_outcome) \<Rightarrow> log_entry list \<Rightarrow>
   (log_entry list \<times> search_request list \<times> (string + dataframe)) option" where
  "fetch_cloud_agents lower to_datetime server lg =
     (case fetch_loop lower server 1 [] (lg @ [Fetching]) [] of
        None \<Rightarrow> None
      | Some (lg', sent, Inl e) \<Rightarrow> Some (lg', sent, Inl e)
      | Some (lg', sent, Inr agents_data) \<Rightarrow>
          Some (lg', sent, Inr (convert_times to_datetime agents_data)))"

text \<open>
  The conversion call of lines 102--103,
  \<^verbatim>\<open>pd.to_datetime(column, errors="coerce", utc=True).dt.tz_localize(None)\<close>.
  How the library reads one string of a column is a parameter \<open>parse\<close>: \<open>None\<close> for a
  string it cannot turn into a time stamp, otherwise the wall-clock time the string shows,
  in nanoseconds since the epoch, and the offset from UTC when the string carries one. The
  flags of the call do the rest: with \<^verbatim>\<open>errors="coerce"\<close> a string that cannot be read
  becomes \<^verbatim>\<open>NaT\<close>; with \<^verbatim>\<open>utc=True\<close> a time with an offset is converted to UTC and a time
  without one is taken as UTC; \<^verbatim>\<open>tz_localize(None)\<close> drops the zone and keeps that UTC time.
\<close>

type_synonym parsed_time = "timestamp \<times> int option"

definition utc_naive :: "parsed_time option \<Rightarrow> timestamp option" where
  "utc_naive p =
     (case p of
        None \<Rightarrow> None
      | Some (wall, None) \<Rightarrow> Some wall
      | Some (wall, Some offset) \<Rightarrow> Some (wall - offset))"

definition pd_to_datetime ::
  "(string list \<Rightarrow> string \<Rightarrow> parsed_time option) \<Rightarrow> string list \<Rightarrow> timestamp option list" where
  "pd_to_datetime parse column = map (\<lambda>s. utc_naive (parse column s)) column"

section \<open>The Agent Remover\<close>

text \<open>
  The state of a removal run: the log, and the ids for which the \<^verbatim>\<open>try\<close> block of lines
  136--155 (the delay and the uninstall call) was entered, in order.
\<close>

record remove_state =
  r_log :: "log_entry list"
  attempts :: "string list"

text \<open>
  The body of the loop, lines 125--155. \<open>api n id\<close> is the outcome of the delay, the
  request and the parsing for agent \<open>id\<close> after \<open>n\<close> earlier attempts; both kinds of
  exception are caught by \<^verbatim>\<open>except Exception\<close>.
\<close>

definition remove_one ::
  "(nat \<Rightarrow> string \<Rightarrow> http_outcome) \<Rightarrow> bool \<Rightarrow> remove_state \<Rightarrow> row \<Rightarrow> remove_state" where
  "remove_one api dry_run st agent =
     (let a = snd agent;
          st1 = st\<lparr>r_log := r_log st @ [Announce dry_run (agent_id a) (hostname a) (address a)]\<rparr>
      in if dry_run then st1
         else
           (let st2 = st1\<lparr>attempts := attempts st1 @ [agent_id a]\<rparr>
            in case api (length (attempts st1)) (agent_id a) of
                 Document root \<Rightarrow>
                   (let response_code = findtext root ''responseCode'';
                        count = findtext root ''count''
                    in if response_code = Some ''SUCCESS'' \<and> count \<noteq> Some ''0''
                       then st2\<lparr>r_log := r_log st2 @
                              [Uninstalled (agent_id a) (hostname a) (address a) (created a) (modified a)]\<rparr>
                       else st2\<lparr>r_log := r_log st2 @
                              [UninstallFailed (agent_id a) (hostname a) (address a) response_code count]\<rparr>)
               | RequestException e \<Rightarrow> st2\<lparr>r_log := r_log st2 @ [UninstallError (agent_id a) e]\<rparr>
               | OtherException e \<Rightarrow> st2\<lparr>r_log := r_log st2 @ [UninstallError (agent_id a) e]\<rparr>))"

fun remove_loop ::
  "(nat \<Rightarrow> string \<Rightarrow> http_outcome) \<Rightarrow> bool \<Rightarrow> remove_state \<Rightarrow> dataframe \<Rightarrow> remove_state" where
  "remove_loop api dry_run st [] = st"
| "remove_loop api dry_run st (agent # rest) =
     remove_loop api dry_run (remove_one api dry_run st agent) rest"

definition remove_cloud_agents ::
  "(nat \<Rightarrow> string \<Rightarrow> http_outcome) \<Rightarrow> dataframe \<Rightarrow> bool \<Rightarrow> remove_state \<Rightarrow> remove_state" where
  "remove_cloud_agents api agents_to_remove dry_run st =
     remove_loop api dry_run (st\<lparr>r_log := r_log st @ [Starting]\<rparr>) agents_to_remove"

section \<open>Concrete inventories\<close>

text \<open>
  The scenario of the specification: two records of one host, the second modified later,
  and a third record of another host whose modified time did not parse.
\<close>

definition scenario_inventory :: dataframe where
  "scenario_inventory =
     [(0, \<lparr>agent_id = ''1'', hostname = ''host-a'', address = ''10.0.0.1'',
           created = Some 5, modified = Some 10\<rparr>),
      (1, \<lparr>agent_id = ''2'', hostname = ''host-a'', address = ''10.0.0.1'',
           created = Some 5, modified = Some 20\<rparr>),
      (2, \<lparr>agent_id = ''3'', hostname = ''host-b'', address = ''10.0.0.2'',
           created = Some 1, modified = None\<rparr>)]"

text \<open>An inventory without a repeated (hostname, address) pair.\<close>

definition unique_inventory :: dataframe where
  "unique_inventory =
     [(0, \<lparr>agent_id = ''1'', hostname = ''host-a'', address = ''10.0.0.1'',
           created = Some 5, modified = Some 10\<rparr>),
      (1, \<lparr>agent_id = ''2'', hostname = ''host-a'', address = ''10.0.0.2'',
           created = Some 5, modified = Some 20\<rparr>)]"

text \<open>
  Documents of the uninstall endpoint with the two fields the script reads, and two remote
  sides: one whose first call times out and whose later calls succeed, one that always
  answers \<^verbatim>\<open>SUCCESS\<close> with a count of \<^verbatim>\<open>0\<close>.
\<close>

definition response_document :: "string \<Rightarrow> string \<Rightarrow> element" where
  "response_document code n =
     Element ''ServiceResponse'' None
       [Element ''responseCode'' (Some code) [], Element ''count'' (Some n) []]"

definition flaky_api :: "nat \<Rightarrow> string \<Rightarrow> http_outcome" where
  "flaky_api n agent =
     (if n = 0 then RequestException ''timed out''
      else Document (response_document ''SUCCESS'' ''1''))"

definition zero_api :: "nat \<Rightarrow> string \<Rightarrow> http_outcome" where
  "zero_api n agent = Document (response_document ''SUCCESS'' ''0'')"

text \<open>
  Documents of the search endpoint, and two remote sides for it. Both answer the first
  request with a page of one asset and \<^verbatim>\<open>hasMoreRecords = true\<close>; the second request is
  answered with a last page of one asset (whose created time does not parse and whose
  modified element is missing) by the first, and fails with a status error at the second.
  \<open>ascii_lower\<close> lowers the letters A to Z; \<open>sample_to_datetime\<close> knows one time stamp.
\<close>

definition host_asset :: "string \<Rightarrow> string \<Rightarrow> string \<Rightarrow> string \<Rightarrow> element" where
  "host_asset i n a c =
     Element ''HostAsset'' None
       [Element ''id'' (Some i) [], Element ''name'' (Some n) [],
        Element ''address'' (Some a) [], Element ''created'' (Some c) []]"

definition search_page :: "string \<Rightarrow> element list \<Rightarrow> element" where
  "search_page flag assets =
     Element ''ServiceResponse'' None
       [Element ''responseCode'' (Some ''SUCCESS'') [],
        Element ''hasMoreRecords'' (Some flag) [],
        Element ''data'' None assets]"

definition sample_pages :: "nat \<Rightarrow> element" where
  "sample_pages k =
     (if k = 0 then search_page ''true'' [host_asset ''1'' ''Host-A'' ''10.0.0.1'' ''2024-01-01T00:00:00Z'']
      else search_page ''false'' [host_asset ''2'' ''HOST-A'' ''10.0.0.1'' ''yesterday''])"

definition two_page_server :: "nat \<Rightarrow> search_request \<Rightarrow> http_outcome" where
  "two_page_server k req = Document (sample_pages k)"

definition failing_server :: "nat \<Rightarrow> search_request \<Rightarrow> http_outcome" where
  "failing_server k req =
     (if k = 0 then Document (sample_pages 0) else RequestException ''503 Server Error'')"

definition ascii_lower :: "string \<Rightarrow> string" where
  "ascii_lower s =
     map (\<lambda>c. case map_of (zip ''ABCDEFGHIJKLMNOPQRSTUVWXYZ'' ''abcdefghijklmnopqrstuvwxyz'') c of
                 None \<Rightarrow> c | Some l \<Rightarrow> l) s"

definition sample_to_datetime :: "string list \<Rightarrow> timestamp option list" where
  "sample_to_datetime column =
     map (\<lambda>s. if s = ''2024-01-01T00:00:00Z'' then Some 1704067200000000000 else None) column"

text \<open>
  The order of the specification, in its own words, for comparison with the order of the
  code: there a missing time ``sorts as the earliest possible value'', so in the ascending
  created column it comes before every time that is present. (In the descending modified
  column the earliest value comes last, which is what \<open>modified_code\<close> does.)
\<close>

definition spec_created_code :: "timestamp option \<Rightarrow> nat \<times> int" where
  "spec_created_code c = (case c of None \<Rightarrow> (0, 0) | Some t \<Rightarrow> (1, t))"

definition spec_lexsort_key :: "row \<Rightarrow> string \<times> string \<times> (nat \<times> int) \<times> (nat \<times> int)" where
  "spec_lexsort_key r =
     (hostname (snd r), address (snd r),
      modified_code (modified (snd r)), spec_created_code (created (snd r)))"

definition spec_sort_values :: "dataframe \<Rightarrow> dataframe" where
  "spec_sort_values df = sort_key spec_lexsort_key df"

text \<open>
  Three records of one host: the first without a created time, the third without a
  modified time.
\<close>

definition null_times_inventory :: dataframe where
  "null_times_inventory =
     [(0, \<lparr>agent_id = ''1'', hostname = ''host-a'', address = ''10.0.0.1'',
           created = None, modified = Some 5\<rparr>),
      (1, \<lparr>agent_id = ''2'', hostname = ''host-a'', address = ''10.0.0.1'',
           created = Some 7, modified = Some 5\<rparr>),
      (2, \<lparr>agent_id = ''3'', hostname = ''host-a'', address = ''10.0.0.1'',
           created = Some 1, modified = None\<rparr>)]"

text \<open>
  Two records of one host that carry the same id, as a remote side may report an asset
  twice.
\<close>

definition repeated_id_inventory :: dataframe where
  "repeated_id_inventory =
     [(0, \<lparr>agent_id = ''7'', hostname = ''host-a'', address = ''10.0.0.1'',
           created = Some 5, modified = Some 10\<rparr>),
      (1, \<lparr>agent_id = ''7'', hostname = ''host-a'', address = ''10.0.0.1'',
           created = Some 5, modified = Some 20\<rparr>)]"

text \<open>
  A reader for the wire format of the API, \<^verbatim>\<open>YYYY-MM-DDTHH:MM:SS\<close> followed by
  \<^verbatim>\<open>Z\<close>, by an offset \<^verbatim>\<open>+HH:MM\<close> or \<^verbatim>\<open>-HH:MM\<close>, or by nothing, to run the conversion
  on concrete columns; and three rows as the fetcher gathers them, whose created times are
  the same instant written in two zones and once without a zone, and whose modified times
  do not parse.
\<close>

definition digit :: "char \<Rightarrow> nat option" where
  "digit c = map_of (zip ''0123456789'' [0, 1, 2, 3, 4, 5, 6, 7, 8, 9]) c"

fun number_from :: "nat \<Rightarrow> string \<Rightarrow> nat option" where
  "number_from acc [] = Some acc"
| "number_from acc (c # cs) =
     (case digit c of None \<Rightarrow> None | Some d \<Rightarrow> number_from (10 * acc + d) cs)"

definition field :: "nat \<Rightarrow> nat \<Rightarrow> string \<Rightarrow> nat option" where
  "field start len s =
     (if length (take len (drop start s)) = len then number_from 0 (take len (drop start s))
      else None)"

definition days_from_civil :: "int \<Rightarrow> int \<Rightarrow> int \<Rightarrow> int" where
  "days_from_civil y m d =
     (let y' = (if m \<le> 2 then y - 1 else y);
          era = y' div 400;
          yoe = y' - era * 400;
          doy = (153 * (if 2 < m then m - 3 else m + 9) + 2) div 5 + d - 1;
          doe = yoe * 365 + yoe div 4 - yoe div 100 + doy
      in era * 146097 + doe - 719468)"

definition zone :: "string \<Rightarrow> int option option" where
  "zone z =
     (if z = [] then Some None
      else if z = ''Z'' then Some (Some 0)
      else if length z = 6 \<and> take 1 (drop 3 z) = '':'' \<and> (take 1 z = ''+'' \<or> take 1 z = ''-'') then
        (case (field 1 2 z, field 4 2 z) of
           (Some h, Some m) \<Rightarrow>
             Some (Some ((if take 1 z = ''-'' then - 1 else 1) *
                         (int h * 3600 + int m * 60) * 1000000000))
         | _ \<Rightarrow> None)
      else None)"

definition iso8601 :: "string list \<Rightarrow> string \<Rightarrow> parsed_time option" where
  "iso8601 column s =
     (case (field 0 4 s, field 5 2 s, field 8 2 s, field 11 2 s, field 14 2 s, field 17 2 s,
            zone (drop 19 s)) of
        (Some y, Some mo, Some d, Some h, Some mi, Some se, Some z) \<Rightarrow>
          (if concat [take 1 (drop 4 s), take 1 (drop 7 s), take 1 (drop 10 s),
                      take 1 (drop 13 s), take 1 (drop 16 s)] = ''--T::'' \<and>
              1 \<le> mo \<and> mo \<le> 12 \<and> 1 \<le> d \<and> d \<le> 31 \<and> h < 24 \<and> mi < 60 \<and> se < 60
           then Some ((days_from_civil (int y) (int mo) (int d) * 86400 +
                       int h * 3600 + int mi * 60 + int se) * 1000000000, z)
           else None)
      | _ \<Rightarrow> None)"

definition zoned_rows :: "string agent list" where
  "zoned_rows =
     [\<lparr>agent_id = ''1'', hostname = ''host-a'', address = ''10.0.0.1'',
       created = ''2024-01-01T00:00:00Z'', modified = ''never''\<rparr>,
      \<lparr>agent_id = ''2'', hostname = ''host-a'', address = ''10.0.0.1'',
       created = ''2024-01-01T02:00:00+02:00'', modified = []\<rparr>,
      \<lparr>agent_id = ''3'', hostname = ''host-a'', address = ''10.0.0.1'',
       created = ''2024-01-01T00:00:00'', modified = ''01/02/2024''\<rparr>]"

section \<open>Properties of the Duplicate Selector\<close>

subsection \<open>Sorting and dropping\<close>

lemma set_sort_values: "set (sort_values df) = set df"
  by (simp add: sort_values_def)

lemma sorted_sort_values: "sorted (map lexsort_key (sort_values df))"
  by (simp add: sort_values_def)

lemma distinct_index_sort_values:
  "distinct (map fst df) \<Longrightarrow> distinct (map fst (sort_values df))"
  by (simp add: sort_values_def distinct_map)

lemma set_drop_duplicates_subset: "set (drop_duplicates xs) \<subseteq> set xs"
  by (induction xs) auto

lemma find_filter_other_key:
  "key_of x \<noteq> k \<Longrightarrow>
   find (\<lambda>r. key_of r = k) (filter (\<lambda>r'. key_of r' \<noteq> key_of x) ys) = find (\<lambda>r. key_of r = k) ys"
  by (induction ys) auto

lemma find_drop_duplicates:
  "find (\<lambda>r. key_of r = k) (drop_duplicates xs) = find (\<lambda>r. key_of r = k) xs"
proof (induction xs)
  case Nil
  then show ?case by simp
next
  case (Cons x xs)
  then show ?case by (auto simp: find_filter_other_key)
qed

lemma distinct_keys_drop_duplicates: "distinct (map key_of (drop_duplicates xs))"
proof (induction xs)
  case Nil
  then show ?case by simp
next
  case (Cons x xs)
  then show ?case by (auto simp: distinct_map_filter)
qed

lemma find_Some_of_distinct_keys:
  "distinct (map key_of ys) \<Longrightarrow> r \<in> set ys \<Longrightarrow> find (\<lambda>r'. key_of r' = key_of r) ys = Some r"
  by (induction ys) (auto simp: rev_image_eqI)

lemma in_drop_duplicates_iff:
  "r \<in> set (drop_duplicates xs) \<longleftrightarrow> find (\<lambda>r'. key_of r' = key_of r) xs = Some r"
proof
  assume "r \<in> set (drop_duplicates xs)"
  then have "find (\<lambda>r'. key_of r' = key_of r) (drop_duplicates xs) = Some r"
    by (rule find_Some_of_distinct_keys [OF distinct_keys_drop_duplicates])
  then show "find (\<lambda>r'. key_of r' = key_of r) xs = Some r"
    by (simp add: find_drop_duplicates)
next
  assume "find (\<lambda>r'. key_of r' = key_of r) xs = Some r"
  then have "find (\<lambda>r'. key_of r' = key_of r) (drop_duplicates xs) = Some r"
    by (simp add: find_drop_duplicates)
  then show "r \<in> set (drop_duplicates xs)"
    by (auto simp: find_Some_iff)
qed

lemma find_sorted_least:
  assumes "sorted (map f xs)" and "find P xs = Some r" and "r' \<in> set xs" and "P r'"
  shows "f r \<le> f r'"
  using assms
proof (induction xs)
  case Nil
  then show ?case by simp
next
  case (Cons x xs)
  then show ?case by (cases "P x") auto
qed

lemma find_is_Some: "r' \<in> set xs \<Longrightarrow> P r' \<Longrightarrow> \<exists>r. find P xs = Some r"
  by (induction xs) auto

lemma find_SomeD: "find P xs = Some r \<Longrightarrow> r \<in> set xs \<and> P r"
  by (induction xs) (auto split: if_splits)

subsection \<open>Which rows are marked for removal\<close>

lemma to_remove_iff:
  assumes "distinct (map fst df)"
  shows "r \<in> set (snd (find_duplicate_agents lg df)) \<longleftrightarrow>
         r \<in> set df \<and> duplicated df r \<and>
         find (\<lambda>r'. key_of r' = key_of r) (sort_values (filter (duplicated df) df)) \<noteq> Some r"
proof -
  let ?s = "sort_values (filter (duplicated df) df)"
  have d: "distinct (map fst ?s)"
    using assms by (intro distinct_index_sort_values) (simp add: distinct_map_filter)
  have sub: "set (drop_duplicates ?s) \<subseteq> set ?s" by (rule set_drop_duplicates_subset)
  have inj: "inj_on fst (set ?s)" using d by (simp add: distinct_map)
  have "fst r \<in> fst ` set (drop_duplicates ?s) \<longleftrightarrow> r \<in> set (drop_duplicates ?s)" if "r \<in> set ?s"
    using that sub inj by (auto dest: inj_onD)
  then show ?thesis
    by (auto simp: find_duplicate_agents_def Let_def set_sort_values in_drop_duplicates_iff)
qed

lemma lexsort_key_le_same_key:
  assumes "lexsort_key r \<le> lexsort_key r'" and "key_of r' = key_of r"
  shows "(\<forall>m m'. modified (snd r) = Some m \<and> modified (snd r') = Some m' \<longrightarrow> m' \<le> m) \<and>
         (modified (snd r) = None \<longrightarrow> modified (snd r') = None) \<and>
         (modified (snd r') = modified (snd r) \<longrightarrow>
            (\<forall>c c'. created (snd r) = Some c \<and> created (snd r') = Some c' \<longrightarrow> c \<le> c') \<and>
            (created (snd r) = None \<longrightarrow> created (snd r') = None))"
  using assms
  by (auto simp: lexsort_key_def key_of_def modified_code_def created_code_def
      split: option.splits)

lemma no_duplicated_of_distinct_keys:
  assumes "distinct (map key_of df)"
  shows "filter (duplicated df) df = []"
proof -
  have "length (filter (\<lambda>r'. key_of r' = key_of r) df) \<le> 1" for r
    using assms
  proof (induction df)
    case Nil
    then show ?case by simp
  next
    case (Cons x xs)
    have "filter (\<lambda>r'. key_of r' = key_of x) xs = []"
      using Cons.prems by (auto simp: filter_empty_conv intro: rev_image_eqI)
    then show ?case using Cons by auto
  qed
  then show ?thesis
    by (auto simp: filter_empty_conv duplicated_def not_less)
qed

text \<open>
  The frame the fetcher returns has the index labels \<open>0, 1, 2, \<dots>\<close>, each once, so the
  hypothesis on the labels in the next theorem holds for every inventory of the program.
\<close>

lemma index_convert_times:
  "map fst (convert_times to_datetime raw) =
     take (length (convert_times to_datetime raw)) [0..<length raw]"
proof -
  let ?ys = "zip raw (zip (to_datetime (map created raw)) (to_datetime (map modified raw)))"
  have "map fst (convert_times to_datetime raw) = map fst (zip [0..<length raw] ?ys)"
    by (simp add: convert_times_def comp_def case_prod_unfold)
  also have "\<dots> = take (min (length [0..<length raw]) (length ?ys)) [0..<length raw]"
    by (rule map_fst_zip_take)
  finally show ?thesis by (simp add: convert_times_def)
qed

lemma distinct_index_convert_times: "distinct (map fst (convert_times to_datetime raw))"
  unfolding index_convert_times by (rule distinct_take) simp

text \<open>
  Claim C1, as amended. In an inventory with distinct index labels, of every group of two
  or more rows with the same (hostname, address) pair exactly one row \<open>r\<close> is missing from
  the rows marked for removal and every other row of the group is among them. No row of the
  group was modified later than \<open>r\<close> (a row without a modified time counts as the
  earliest), and among the rows modified at the same time none was created earlier than
  \<open>r\<close>, where a row without a created time counts as the latest. When the ids of the
  inventory are distinct, the id of \<open>r\<close> is not among the ids marked.
\<close>

theorem retained_record:
  assumes "distinct (map fst df)" and "1 < length (filter (\<lambda>r. key_of r = k) df)"
  shows "\<exists>r \<in> set df. key_of r = k \<and> r \<notin> set (snd (find_duplicate_agents lg df)) \<and>
     (\<forall>r' \<in> set df. key_of r' = k \<and> r' \<noteq> r \<longrightarrow> r' \<in> set (snd (find_duplicate_agents lg df))) \<and>
     (\<forall>r' \<in> set df. key_of r' = k \<longrightarrow>
         (\<forall>m m'. modified (snd r) = Some m \<and> modified (snd r') = Some m' \<longrightarrow> m' \<le> m) \<and>
         (modified (snd r) = None \<longrightarrow> modified (snd r') = None) \<and>
         (modified (snd r') = modified (snd r) \<longrightarrow>
            (\<forall>c c'. created (snd r) = Some c \<and> created (snd r') = Some c' \<longrightarrow> c \<le> c') \<and>
            (created (snd r) = None \<longrightarrow> created (snd r') = None))) \<and>
     (distinct (map (agent_id \<circ> snd) df) \<longrightarrow>
        agent_id (snd r) \<notin> (agent_id \<circ> snd) ` set (snd (find_duplicate_agents lg df)))"
proof -
  let ?s = "sort_values (filter (duplicated df) df)"
  let ?P = "\<lambda>r. key_of r = k"
  let ?out = "set (snd (find_duplicate_agents lg df))"
  have "filter ?P df \<noteq> []" using assms(2) by auto
  then obtain x where x: "x \<in> set df" "key_of x = k"
    by (metis (mono_tags, lifting) filter_False)
  have dup: "duplicated df y" if "y \<in> set df" "key_of y = k" for y
    using that assms(2) by (simp add: duplicated_def)
  have mem: "y \<in> set ?s" if "y \<in> set df" "key_of y = k" for y
    using that dup by (simp add: set_sort_values)
  from mem [OF x] obtain r where r: "find ?P ?s = Some r"
    using find_is_Some [of x ?s ?P] x by auto
  then have rs: "r \<in> set ?s" and rk: "key_of r = k"
    by (auto dest: find_SomeD)
  then have rdf: "r \<in> set df" by (simp add: set_sort_values)
  have notin: "r \<notin> ?out"
    using r rk by (simp add: to_remove_iff [OF assms(1)])
  have others: "r' \<in> ?out"
    if "r' \<in> set df" "key_of r' = k" "r' \<noteq> r" for r'
    using that r dup by (simp add: to_remove_iff [OF assms(1)])
  have least: "lexsort_key r \<le> lexsort_key r'" if "r' \<in> set df" "key_of r' = k" for r'
    using find_sorted_least [OF sorted_sort_values r mem [OF that]] that by simp
  have ids: "agent_id (snd r) \<notin> (agent_id \<circ> snd) ` ?out"
    if d: "distinct (map (agent_id \<circ> snd) df)"
  proof
    assume "agent_id (snd r) \<in> (agent_id \<circ> snd) ` ?out"
    then obtain y where y: "y \<in> ?out" "(agent_id \<circ> snd) y = (agent_id \<circ> snd) r" by auto
    from y(1) have ydf: "y \<in> set df" by (simp add: to_remove_iff [OF assms(1)])
    from d have "inj_on (agent_id \<circ> snd) (set df)" by (simp add: distinct_map)
    from this y(2) ydf rdf have "y = r" by (rule inj_onD)
    with y(1) notin show False by simp
  qed
  show ?thesis
  proof (intro bexI [of _ r] conjI ballI impI)
    show "r \<in> set df" by (rule rdf)
    show "key_of r = k" by (rule rk)
    show "r \<notin> ?out" by (rule notin)
  next
    fix r' assume "r' \<in> set df" "key_of r' = k \<and> r' \<noteq> r"
    then show "r' \<in> ?out" using others by blast
  next
    fix r' assume a: "r' \<in> set df" "key_of r' = k"
    have "key_of r' = key_of r" using a rk by simp
    from lexsort_key_le_same_key [OF least [OF a] this]
    show "\<forall>m m'. modified (snd r) = Some m \<and> modified (snd r') = Some m' \<longrightarrow> m' \<le> m"
      and "modified (snd r) = None \<Longrightarrow> modified (snd r') = None"
      and "modified (snd r') = modified (snd r) \<Longrightarrow>
           \<forall>c c'. created (snd r) = Some c \<and> created (snd r') = Some c' \<longrightarrow> c \<le> c'"
      and "modified (snd r') = modified (snd r) \<Longrightarrow> created (snd r) = None \<Longrightarrow>
           created (snd r') = None"
      by blast+
  next
    assume "distinct (map (agent_id \<circ> snd) df)"
    then show "agent_id (snd r) \<notin> (agent_id \<circ> snd) ` ?out" by (rule ids)
  qed
qed

text \<open>
  Claim C1 as stated fails in two ways. Read with the order of the specification, where a
  missing time is the earliest possible value, the record to retain among the three of
  \<open>null_times_inventory\<close> is the first (modified at the latest time 5, created earliest
  because its created time is missing), and the selector marks it for removal. And the
  retained record is in the candidate set when records are told apart by their id, as the
  remover does: of the two records with id 7 the selector marks the first and retains the
  second, whose id is the id marked.
\<close>

theorem retained_record_counterexample:
  "hd (spec_sort_values null_times_inventory) = null_times_inventory ! 0 \<and>
   null_times_inventory ! 0 \<in> set (snd (find_duplicate_agents [] null_times_inventory)) \<and>
   snd (find_duplicate_agents [] repeated_id_inventory) = [repeated_id_inventory ! 0] \<and>
   agent_id (snd (repeated_id_inventory ! 1)) \<in>
     (agent_id \<circ> snd) ` set (snd (find_duplicate_agents [] repeated_id_inventory))"
  by (simp add: null_times_inventory_def repeated_id_inventory_def spec_sort_values_def
      spec_lexsort_key_def sort_values_def lexsort_key_def modified_code_def created_code_def
      spec_created_code_def find_duplicate_agents_def duplicated_def key_of_def)

text \<open>
  The amended claim at the scenario of the specification: the labels and the ids are
  distinct, the group of \<open>host-a\<close> has two rows, the row modified first is the one marked,
  and the id of the other row is not marked.
\<close>

theorem retained_record_witness:
  "distinct (map fst scenario_inventory) \<and>
   1 < length (filter (\<lambda>r. key_of r = (''host-a'', ''10.0.0.1'')) scenario_inventory) \<and>
   distinct (map (agent_id \<circ> snd) scenario_inventory) \<and>
   (\<exists>r \<in> set scenario_inventory. key_of r = (''host-a'', ''10.0.0.1'') \<and>
      r \<notin> set (snd (find_duplicate_agents [] scenario_inventory)) \<and>
      (\<forall>r' \<in> set scenario_inventory. key_of r' = (''host-a'', ''10.0.0.1'') \<and> r' \<noteq> r \<longrightarrow>
          r' \<in> set (snd (find_duplicate_agents [] scenario_inventory))) \<and>
      agent_id (snd r) \<notin> (agent_id \<circ> snd) ` set (snd (find_duplicate_agents [] scenario_inventory)))"
proof -
  have h1: "distinct (map fst scenario_inventory)"
    by (simp add: scenario_inventory_def)
  have h2: "1 < length (filter (\<lambda>r. key_of r = (''host-a'', ''10.0.0.1'')) scenario_inventory)"
    by (simp add: scenario_inventory_def key_of_def)
  have h3: "distinct (map (agent_id \<circ> snd) scenario_inventory)"
    by (simp add: scenario_inventory_def)
  from retained_record [OF h1 h2, of "[]"] obtain r where
    r: "r \<in> set scenario_inventory" "key_of r = (''host-a'', ''10.0.0.1'')"
       "r \<notin> set (snd (find_duplicate_agents [] scenario_inventory))"
       "\<forall>r' \<in> set scenario_inventory. key_of r' = (''host-a'', ''10.0.0.1'') \<and> r' \<noteq> r \<longrightarrow>
          r' \<in> set (snd (find_duplicate_agents [] scenario_inventory))"
       "distinct (map (agent_id \<circ> snd) scenario_inventory) \<longrightarrow>
          agent_id (snd r) \<notin> (agent_id \<circ> snd) ` set (snd (find_duplicate_agents [] scenario_inventory))"
    by blast
  from r(5) h3 have "agent_id (snd r) \<notin>
      (agent_id \<circ> snd) ` set (snd (find_duplicate_agents [] scenario_inventory))"
    by (rule mp)
  with r(1-4) have "\<exists>r \<in> set scenario_inventory. key_of r = (''host-a'', ''10.0.0.1'') \<and>
      r \<notin> set (snd (find_duplicate_agents [] scenario_inventory)) \<and>
      (\<forall>r' \<in> set scenario_inventory. key_of r' = (''host-a'', ''10.0.0.1'') \<and> r' \<noteq> r \<longrightarrow>
          r' \<in> set (snd (find_duplicate_agents [] scenario_inventory))) \<and>
      agent_id (snd r) \<notin> (agent_id \<circ> snd) ` set (snd (find_duplicate_agents [] scenario_inventory))"
    by (intro bexI [of _ r] conjI)
  with h1 h2 h3 show ?thesis by (intro conjI)
qed

text \<open>
  Claim C2. For an inventory in which no (hostname, address) pair occurs twice no row is
  marked for removal; the empty inventory is such an inventory.
\<close>

theorem no_repeated_keys:
  "(distinct (map key_of df) \<longrightarrow> snd (find_duplicate_agents lg df) = []) \<and>
   snd (find_duplicate_agents lg []) = []"
  by (simp add: find_duplicate_agents_def sort_values_def no_duplicated_of_distinct_keys)

theorem no_repeated_keys_witness:
  "distinct (map key_of unique_inventory) \<and> snd (find_duplicate_agents [] unique_inventory) = []"
proof -
  have h: "distinct (map key_of unique_inventory)"
    by (simp add: unique_inventory_def key_of_def)
  with no_repeated_keys [of unique_inventory "[]"] show ?thesis by blast
qed

text \<open>
  Claim C10. A second run of the selector on the same inventory marks the same rows as the
  first: the rows marked do not depend on the log, the only state a run changes.
\<close>

theorem selector_twice:
  "snd (find_duplicate_agents (fst (find_duplicate_agents lg df)) df) =
     snd (find_duplicate_agents lg df) \<and>
   snd (find_duplicate_agents lg' df) = snd (find_duplicate_agents lg df)"
  by (simp add: find_duplicate_agents_def Let_def)

subsection \<open>The rows marked are rows of the inventory\<close>

lemma to_remove_subset_duplicated:
  "set (snd (find_duplicate_agents lg df)) \<subseteq> set (filter (duplicated df) df)"
  by (auto simp: find_duplicate_agents_def Let_def set_sort_values)

lemma first_sorted_not_marked:
  assumes "filter (duplicated df) df \<noteq> []"
  shows "\<exists>h \<in> set df. h \<notin> set (snd (find_duplicate_agents lg df))"
proof -
  let ?s = "sort_values (filter (duplicated df) df)"
  have "set ?s \<noteq> {}" using assms by (simp add: set_sort_values del: set_filter)
  then obtain h t where s: "?s = h # t" by (cases ?s) auto
  then have "h \<in> set ?s" by simp
  then have hdf: "h \<in> set df" by (simp add: set_sort_values)
  have "h \<in> set (drop_duplicates ?s)" using s by simp
  then have "h \<notin> set (snd (find_duplicate_agents lg df))"
    by (auto simp: find_duplicate_agents_def Let_def)
  with hdf show ?thesis by blast
qed

lemma some_row_not_marked:
  assumes "df \<noteq> []"
  shows "\<exists>h \<in> set df. h \<notin> set (snd (find_duplicate_agents lg df))"
proof (cases "filter (duplicated df) df = []")
  case True
  then have e: "snd (find_duplicate_agents lg df) = []"
    by (simp add: find_duplicate_agents_def sort_values_def)
  obtain x xs where "df = x # xs" using assms by (cases df) auto
  then have "x \<in> set df" by simp
  then show ?thesis unfolding e by (intro bexI [of _ x]) simp_all
next
  case False
  then show ?thesis by (rule first_sorted_not_marked)
qed

lemma to_remove_subset: "set (snd (find_duplicate_agents lg df)) \<subseteq> set df"
  using to_remove_subset_duplicated [of lg df] by auto

lemma to_remove_psubset:
  "df \<noteq> [] \<Longrightarrow> set (snd (find_duplicate_agents lg df)) \<subset> set df"
  using some_row_not_marked [of df lg] to_remove_subset [of lg df] by blast

lemma not_duplicated_not_marked:
  "\<not> duplicated df r \<Longrightarrow> r \<notin> set (snd (find_duplicate_agents lg df))"
  using to_remove_subset_duplicated [of lg df] by auto

lemma to_remove_ids_psubset:
  assumes "df \<noteq> []" and "distinct (map (agent_id \<circ> snd) df)"
  shows "(agent_id \<circ> snd) ` set (snd (find_duplicate_agents lg df)) \<subset> (agent_id \<circ> snd) ` set df"
proof -
  let ?out = "set (snd (find_duplicate_agents lg df))"
  let ?f = "agent_id \<circ> snd"
  have sub: "?out \<subseteq> set df" by (rule to_remove_subset)
  have inj: "inj_on ?f (set df)" using assms(2) by (simp add: distinct_map)
  obtain h where h: "h \<in> set df" "h \<notin> ?out"
    using some_row_not_marked [OF assms(1), of lg] by blast
  have "?f h \<notin> ?f ` ?out"
  proof
    assume "?f h \<in> ?f ` ?out"
    then obtain y where y: "y \<in> ?out" "?f y = ?f h" by auto
    from sub y(1) have "y \<in> set df" by (rule subsetD)
    with inj y(2) have "y = h" using h(1) by (rule inj_onD)
    with y(1) h(2) show False by simp
  qed
  moreover have "?f h \<in> ?f ` set df" using h(1) by (rule imageI)
  moreover have "?f ` ?out \<subseteq> ?f ` set df" using sub by (rule image_mono)
  ultimately show ?thesis by blast
qed

text \<open>
  Claim C3, as amended. The rows marked for removal are rows of the inventory; for an
  inventory that is not empty they are a strict subset of its rows; a row outside every
  duplicate group is never marked; and when the ids of the inventory are distinct the ids
  marked are a strict subset of the ids of the inventory.
\<close>

theorem selector_subset:
  "set (snd (find_duplicate_agents lg df)) \<subseteq> set df \<and>
   (df \<noteq> [] \<longrightarrow> set (snd (find_duplicate_agents lg df)) \<subset> set df) \<and>
   (\<forall>r \<in> set df. \<not> duplicated df r \<longrightarrow> r \<notin> set (snd (find_duplicate_agents lg df))) \<and>
   (df \<noteq> [] \<and> distinct (map (agent_id \<circ> snd) df) \<longrightarrow>
      (agent_id \<circ> snd) ` set (snd (find_duplicate_agents lg df)) \<subset> (agent_id \<circ> snd) ` set df)"
  using to_remove_subset [of lg df] to_remove_psubset [of df lg]
    not_duplicated_not_marked [of df _ lg] to_remove_ids_psubset [of df lg]
  by (intro conjI impI ballI) simp_all

text \<open>
  Claim C3 as stated fails in two ways. At the empty inventory the selector returns the
  empty frame, which is equal to its input and so not a strict subset of it. And compared
  by id the output need not be a strict subset of a non-empty input: of the two records
  with id 7 one is marked, so the ids marked are all the ids of the inventory.
\<close>

theorem selector_subset_counterexample:
  "\<not> set (snd (find_duplicate_agents [] [])) \<subset> set ([] :: dataframe) \<and>
   repeated_id_inventory \<noteq> [] \<and>
   (agent_id \<circ> snd) ` set (snd (find_duplicate_agents [] repeated_id_inventory)) =
     (agent_id \<circ> snd) ` set repeated_id_inventory \<and>
   \<not> (agent_id \<circ> snd) ` set (snd (find_duplicate_agents [] repeated_id_inventory))
       \<subset> (agent_id \<circ> snd) ` set repeated_id_inventory"
proof -
  have e: "(agent_id \<circ> snd) ` set (snd (find_duplicate_agents [] repeated_id_inventory)) =
     (agent_id \<circ> snd) ` set repeated_id_inventory"
    by (simp add: repeated_id_inventory_def sort_values_def lexsort_key_def modified_code_def
        created_code_def find_duplicate_agents_def duplicated_def key_of_def)
  have n: "repeated_id_inventory \<noteq> []" by (simp add: repeated_id_inventory_def)
  have "\<not> set (snd (find_duplicate_agents [] [])) \<subset> set ([] :: dataframe)" by simp
  moreover have "\<not> (agent_id \<circ> snd) ` set (snd (find_duplicate_agents [] repeated_id_inventory))
       \<subset> (agent_id \<circ> snd) ` set repeated_id_inventory"
    unfolding e by simp
  ultimately show ?thesis using e n by (intro conjI)
qed

text \<open>The amended claim at the scenario inventory, whose third row is outside every group.\<close>

theorem selector_subset_witness:
  "scenario_inventory \<noteq> [] \<and> distinct (map (agent_id \<circ> snd) scenario_inventory) \<and>
   scenario_inventory ! 2 \<in> set scenario_inventory \<and>
   \<not> duplicated scenario_inventory (scenario_inventory ! 2) \<and>
   set (snd (find_duplicate_agents [] scenario_inventory)) \<subset> set scenario_inventory \<and>
   scenario_inventory ! 2 \<notin> set (snd (find_duplicate_agents [] scenario_inventory)) \<and>
   (agent_id \<circ> snd) ` set (snd (find_duplicate_agents [] scenario_inventory))
      \<subset> (agent_id \<circ> snd) ` set scenario_inventory"
proof -
  have h1: "scenario_inventory \<noteq> []" by (simp add: scenario_inventory_def)
  have h2: "distinct (map (agent_id \<circ> snd) scenario_inventory)"
    by (simp add: scenario_inventory_def)
  have h3: "scenario_inventory ! 2 \<in> set scenario_inventory"
    by (simp add: scenario_inventory_def)
  have h4: "\<not> duplicated scenario_inventory (scenario_inventory ! 2)"
    by (simp add: scenario_inventory_def duplicated_def key_of_def)
  note t = selector_subset [of "[]" scenario_inventory]
  have c1: "set (snd (find_duplicate_agents [] scenario_inventory)) \<subset> set scenario_inventory"
    using t [THEN conjunct2, THEN conjunct1] h1 by (rule mp)
  have c2: "scenario_inventory ! 2 \<notin> set (snd (find_duplicate_agents [] scenario_inventory))"
    using t [THEN conjunct2, THEN conjunct2, THEN conjunct1, rule_format, OF h3 h4] .
  have c3: "(agent_id \<circ> snd) ` set (snd (find_duplicate_agents [] scenario_inventory))
      \<subset> (agent_id \<circ> snd) ` set scenario_inventory"
    using t [THEN conjunct2, THEN conjunct2, THEN conjunct2, THEN mp, OF conjI, OF h1 h2] .
  from h1 h2 h3 h4 c1 c2 c3 show ?thesis by (intro conjI)
qed

section \<open>Properties of the Agent Remover\<close>

subsection \<open>Dry run\<close>

lemma remove_one_dry_run:
  "remove_one api True st agent =
     st\<lparr>r_log := r_log st @
       [Announce True (agent_id (snd agent)) (hostname (snd agent)) (address (snd agent))]\<rparr>"
  by (simp add: remove_one_def Let_def)

lemma remove_loop_dry_run:
  "remove_loop api True st agents =
     st\<lparr>r_log := r_log st @
       map (\<lambda>agent. Announce True (agent_id (snd agent)) (hostname (snd agent)) (address (snd agent)))
         agents\<rparr>"
  by (induction agents arbitrary: st) (simp_all add: remove_one_dry_run)

text \<open>
  Claim C8. A dry run makes no uninstall attempt: the list of attempts is left as it was.
  After the line that announces the run, the log gains exactly one entry for each
  candidate, in the order of the candidate list.
\<close>

theorem dry_run_removal:
  "r_log (remove_cloud_agents api agents_to_remove True st) =
     r_log st @ Starting #
       map (\<lambda>agent. Announce True (agent_id (snd agent)) (hostname (snd agent)) (address (snd agent)))
         agents_to_remove \<and>
   attempts (remove_cloud_agents api agents_to_remove True st) = attempts st"
  by (simp add: remove_cloud_agents_def remove_loop_dry_run)

subsection \<open>Live run\<close>

lemma attempts_remove_one:
  "attempts (remove_one api False st agent) = attempts st @ [agent_id (snd agent)]"
  by (simp add: remove_one_def Let_def split: http_outcome.splits)

lemma attempts_remove_loop:
  "attempts (remove_loop api False st agents) = attempts st @ map (agent_id \<circ> snd) agents"
  by (induction agents arbitrary: st) (simp_all add: attempts_remove_one)

lemma remove_loop_append:
  "remove_loop api dry_run st (xs @ ys) = remove_loop api dry_run (remove_loop api dry_run st xs) ys"
  by (induction xs arbitrary: st) simp_all

lemma r_log_remove_one_raised:
  assumes "api (length (attempts st)) (agent_id (snd agent)) = RequestException e \<or>
           api (length (attempts st)) (agent_id (snd agent)) = OtherException e"
  shows "r_log (remove_one api False st agent) =
           r_log st @
             [Announce False (agent_id (snd agent)) (hostname (snd agent)) (address (snd agent)),
              UninstallError (agent_id (snd agent)) e]"
  using assms by (auto simp: remove_one_def Let_def)

lemma r_log_remove_one_document:
  assumes "api (length (attempts st)) (agent_id (snd agent)) = Document root"
  shows "r_log (remove_one api False st agent) =
           r_log st @
             [Announce False (agent_id (snd agent)) (hostname (snd agent)) (address (snd agent)),
              if findtext root ''responseCode'' = Some ''SUCCESS'' \<and> findtext root ''count'' \<noteq> Some ''0''
              then Uninstalled (agent_id (snd agent)) (hostname (snd agent)) (address (snd agent))
                     (created (snd agent)) (modified (snd agent))
              else UninstallFailed (agent_id (snd agent)) (hostname (snd agent)) (address (snd agent))
                     (findtext root ''responseCode'') (findtext root ''count'')]"
  using assms by (simp add: remove_one_def Let_def)

text \<open>
  Claim C7. In a live run an uninstall is attempted for every candidate, in order, whatever
  the outcomes of the attempts are; the run on a list is the run on the candidates before
  one of them, the body of the loop on that candidate, and the loop on the candidates after
  it; and when the attempt for a candidate raises an exception, the body logs the error
  with the id of that candidate.
\<close>

theorem failure_isolation:
  "attempts (remove_cloud_agents api agents_to_remove False st) =
     attempts st @ map (agent_id \<circ> snd) agents_to_remove \<and>
   remove_cloud_agents api (before @ agent # rest) False st =
     remove_loop api False (remove_one api False (remove_cloud_agents api before False st) agent) rest \<and>
   (api (length (attempts s)) (agent_id (snd agent)) = RequestException e \<or>
    api (length (attempts s)) (agent_id (snd agent)) = OtherException e \<longrightarrow>
      r_log (remove_one api False s agent) =
        r_log s @
          [Announce False (agent_id (snd agent)) (hostname (snd agent)) (address (snd agent)),
           UninstallError (agent_id (snd agent)) e])"
proof (intro conjI impI)
  show "attempts (remove_cloud_agents api agents_to_remove False st) =
     attempts st @ map (agent_id \<circ> snd) agents_to_remove"
    by (simp add: remove_cloud_agents_def attempts_remove_loop)
  show "remove_cloud_agents api (before @ agent # rest) False st =
     remove_loop api False (remove_one api False (remove_cloud_agents api before False st) agent) rest"
    by (simp add: remove_cloud_agents_def remove_loop_append)
  show "r_log (remove_one api False s agent) =
        r_log s @
          [Announce False (agent_id (snd agent)) (hostname (snd agent)) (address (snd agent)),
           UninstallError (agent_id (snd agent)) e]"
    if "api (length (attempts s)) (agent_id (snd agent)) = RequestException e \<or>
        api (length (attempts s)) (agent_id (snd agent)) = OtherException e"
    using that by (rule r_log_remove_one_raised)
qed

text \<open>A remote side whose first call times out: the error is logged, all three ids are attempted.\<close>

theorem failure_isolation_witness:
  "flaky_api (length (attempts \<lparr>r_log = [], attempts = []\<rparr>)) (agent_id (snd (scenario_inventory ! 0)))
     = RequestException ''timed out'' \<and>
   r_log (remove_one flaky_api False \<lparr>r_log = [], attempts = []\<rparr> (scenario_inventory ! 0)) =
     [Announce False ''1'' ''host-a'' ''10.0.0.1'', UninstallError ''1'' ''timed out''] \<and>
   attempts (remove_cloud_agents flaky_api scenario_inventory False \<lparr>r_log = [], attempts = []\<rparr>) =
     [''1'', ''2'', ''3'']"
proof -
  let ?s = "\<lparr>r_log = [], attempts = []\<rparr>"
  have h: "flaky_api (length (attempts ?s)) (agent_id (snd (scenario_inventory ! 0)))
             = RequestException ''timed out''"
    by (simp add: flaky_api_def)
  note t = failure_isolation [of flaky_api scenario_inventory ?s "[]" "scenario_inventory ! 0" "[]" ?s
      "''timed out''"]
  have c1: "r_log (remove_one flaky_api False ?s (scenario_inventory ! 0)) =
     [Announce False ''1'' ''host-a'' ''10.0.0.1'', UninstallError ''1'' ''timed out'']"
    using t [THEN conjunct2, THEN conjunct2, THEN mp, OF disjI1, OF h]
    by (simp add: scenario_inventory_def)
  have c2: "attempts (remove_cloud_agents flaky_api scenario_inventory False ?s) = [''1'', ''2'', ''3'']"
    using t [THEN conjunct1] by (simp add: scenario_inventory_def)
  from h c1 c2 show ?thesis by (intro conjI)
qed

text \<open>
  Claim C4. When the uninstall call returns a document, the body of the loop logs a success
  if the response code is \<^verbatim>\<open>SUCCESS\<close> and the count is not the string \<^verbatim>\<open>0\<close>, and a
  failure otherwise; a response code \<^verbatim>\<open>SUCCESS\<close> with the count \<^verbatim>\<open>0\<close> is logged as a
  failure; and after either entry the loop goes on with the remaining candidates, each of
  which is attempted.
\<close>

theorem response_interpretation:
  "(api (length (attempts s)) (agent_id (snd agent)) = Document root \<longrightarrow>
      r_log (remove_one api False s agent) =
        r_log s @
          [Announce False (agent_id (snd agent)) (hostname (snd agent)) (address (snd agent)),
           if findtext root ''responseCode'' = Some ''SUCCESS'' \<and> findtext root ''count'' \<noteq> Some ''0''
           then Uninstalled (agent_id (snd agent)) (hostname (snd agent)) (address (snd agent))
                  (created (snd agent)) (modified (snd agent))
           else UninstallFailed (agent_id (snd agent)) (hostname (snd agent)) (address (snd agent))
                  (findtext root ''responseCode'') (findtext root ''count'')]) \<and>
   (api (length (attempts s)) (agent_id (snd agent)) = Document root \<and>
    findtext root ''responseCode'' = Some ''SUCCESS'' \<and> findtext root ''count'' = Some ''0'' \<longrightarrow>
      r_log (remove_one api False s agent) =
        r_log s @
          [Announce False (agent_id (snd agent)) (hostname (snd agent)) (address (snd agent)),
           UninstallFailed (agent_id (snd agent)) (hostname (snd agent)) (address (snd agent))
             (Some ''SUCCESS'') (Some ''0'')]) \<and>
   remove_loop api False s (agent # rest) = remove_loop api False (remove_one api False s agent) rest \<and>
   attempts (remove_loop api False s (agent # rest)) =
     attempts s @ agent_id (snd agent) # map (agent_id \<circ> snd) rest"
proof (intro conjI impI)
  assume "api (length (attempts s)) (agent_id (snd agent)) = Document root"
  then show "r_log (remove_one api False s agent) =
        r_log s @
          [Announce False (agent_id (snd agent)) (hostname (snd agent)) (address (snd agent)),
           if findtext root ''responseCode'' = Some ''SUCCESS'' \<and> findtext root ''count'' \<noteq> Some ''0''
           then Uninstalled (agent_id (snd agent)) (hostname (snd agent)) (address (snd agent))
                  (created (snd agent)) (modified (snd agent))
           else UninstallFailed (agent_id (snd agent)) (hostname (snd agent)) (address (snd agent))
                  (findtext root ''responseCode'') (findtext root ''count'')]"
    by (rule r_log_remove_one_document)
next
  assume a: "api (length (attempts s)) (agent_id (snd agent)) = Document root \<and>
    findtext root ''responseCode'' = Some ''SUCCESS'' \<and> findtext root ''count'' = Some ''0''"
  from r_log_remove_one_document [of api s agent root] a
  show "r_log (remove_one api False s agent) =
        r_log s @
          [Announce False (agent_id (snd agent)) (hostname (snd agent)) (address (snd agent)),
           UninstallFailed (agent_id (snd agent)) (hostname (snd agent)) (address (snd agent))
             (Some ''SUCCESS'') (Some ''0'')]"
    by simp
next
  show "remove_loop api False s (agent # rest) = remove_loop api False (remove_one api False s agent) rest"
    by simp
  show "attempts (remove_loop api False s (agent # rest)) =
     attempts s @ agent_id (snd agent) # map (agent_id \<circ> snd) rest"
    by (simp add: attempts_remove_loop attempts_remove_one)
qed

text \<open>A remote side that answers \<^verbatim>\<open>SUCCESS\<close> with count \<^verbatim>\<open>0\<close>: the failure entry is logged.\<close>

theorem response_interpretation_witness:
  "zero_api (length (attempts \<lparr>r_log = [], attempts = []\<rparr>)) (agent_id (snd (scenario_inventory ! 0)))
     = Document (response_document ''SUCCESS'' ''0'') \<and>
   findtext (response_document ''SUCCESS'' ''0'') ''responseCode'' = Some ''SUCCESS'' \<and>
   findtext (response_document ''SUCCESS'' ''0'') ''count'' = Some ''0'' \<and>
   r_log (remove_one zero_api False \<lparr>r_log = [], attempts = []\<rparr> (scenario_inventory ! 0)) =
     [Announce False ''1'' ''host-a'' ''10.0.0.1'',
      UninstallFailed ''1'' ''host-a'' ''10.0.0.1'' (Some ''SUCCESS'') (Some ''0'')]"
proof -
  let ?s = "\<lparr>r_log = [], attempts = []\<rparr>"
  let ?d = "response_document ''SUCCESS'' ''0''"
  have h1: "zero_api (length (attempts ?s)) (agent_id (snd (scenario_inventory ! 0))) = Document ?d"
    by (simp add: zero_api_def)
  have h2: "findtext ?d ''responseCode'' = Some ''SUCCESS''"
    by (simp add: response_document_def findtext_def)
  have h3: "findtext ?d ''count'' = Some ''0''"
    by (simp add: response_document_def findtext_def)
  note t = response_interpretation [of zero_api ?s "scenario_inventory ! 0" ?d "[]"]
  have c: "r_log (remove_one zero_api False ?s (scenario_inventory ! 0)) =
     [Announce False ''1'' ''host-a'' ''10.0.0.1'',
      UninstallFailed ''1'' ''host-a'' ''10.0.0.1'' (Some ''SUCCESS'') (Some ''0'')]"
    using t [THEN conjunct2, THEN conjunct1, THEN mp, OF conjI, OF h1 conjI, OF h2 h3]
    by (simp add: scenario_inventory_def)
  from h1 h2 h3 c show ?thesis by (intro conjI)
qed

section \<open>Properties of the Inventory Fetcher\<close>

subsection \<open>One turn of the loop, and many\<close>

lemma fetch_loop_step_more:
  assumes "server (length sent) (request_payload offset) = Document root"
    and "findtext root ''hasMoreRecords'' = Some ''true''"
  shows "fetch_loop lower server offset agents_data lg sent =
         fetch_loop lower server (offset + 1000)
           (agents_data @ map (new_row lower) (findall_data_HostAsset root))
           lg (sent @ [request_payload offset])"
  using assms by (subst fetch_loop.simps) simp

lemma fetch_loop_step_last:
  assumes "server (length sent) (request_payload offset) = Document root"
    and "findtext root ''hasMoreRecords'' \<noteq> Some ''true''"
  shows "fetch_loop lower server offset agents_data lg sent =
         Some (lg, sent @ [request_payload offset],
               Inr (agents_data @ map (new_row lower) (findall_data_HostAsset root)))"
  using assms by (subst fetch_loop.simps) simp

lemma fetch_loop_step_error:
  assumes "server (length sent) (request_payload offset) = RequestException e"
  shows "fetch_loop lower server offset agents_data lg sent =
         Some (lg @ [FetchError e], sent @ [request_payload offset], Inr agents_data)"
  using assms by (subst fetch_loop.simps) simp

lemma fetch_loop_pages:
  assumes "\<forall>k<n. server (length sent + k) (request_payload (offset + 1000 * k)) = Document (pages k) \<and>
                 findtext (pages k) ''hasMoreRecords'' = Some ''true''"
  shows "fetch_loop lower server offset agents_data lg sent =
         fetch_loop lower server (offset + 1000 * n)
           (agents_data @ concat (map (\<lambda>k. map (new_row lower) (findall_data_HostAsset (pages k))) [0..<n]))
           lg (sent @ map (\<lambda>k. request_payload (offset + 1000 * k)) [0..<n])"
  using assms
proof (induction n)
  case 0
  then show ?case by simp
next
  case (Suc n)
  let ?sent = "sent @ map (\<lambda>k. request_payload (offset + 1000 * k)) [0..<n]"
  have len: "length ?sent = length sent + n" by simp
  from Suc.prems have page: "server (length ?sent) (request_payload (offset + 1000 * n)) = Document (pages n)"
    and more: "findtext (pages n) ''hasMoreRecords'' = Some ''true''"
    unfolding len by simp_all
  from Suc.prems have "\<forall>k<n. server (length sent + k) (request_payload (offset + 1000 * k)) = Document (pages k) \<and>
                 findtext (pages k) ''hasMoreRecords'' = Some ''true''"
    by simp
  from Suc.IH [OF this] show ?case
    by (simp add: fetch_loop_step_more [of server ?sent "offset + 1000 * n" "pages n", OF page more]
        add.commute add.left_commute)
qed

subsection \<open>Runs of the fetcher\<close>

lemma fetch_cloud_agents_complete:
  assumes more: "\<forall>k<n. server k (request_payload (1 + 1000 * k)) = Document (pages k) \<and>
                       findtext (pages k) ''hasMoreRecords'' = Some ''true''"
    and page: "server n (request_payload (1 + 1000 * n)) = Document (pages n)"
    and last: "findtext (pages n) ''hasMoreRecords'' \<noteq> Some ''true''"
  shows "fetch_cloud_agents lower to_datetime server lg =
         Some (lg @ [Fetching], map (\<lambda>k. request_payload (1 + 1000 * k)) [0..<Suc n],
               Inr (convert_times to_datetime
                      (concat (map (\<lambda>k. map (new_row lower) (findall_data_HostAsset (pages k)))
                                   [0..<Suc n]))))"
proof -
  let ?sent = "map (\<lambda>k. request_payload (1 + 1000 * k)) [0..<n]"
  let ?acc = "concat (map (\<lambda>k. map (new_row lower) (findall_data_HostAsset (pages k))) [0..<n])"
  have "\<forall>k<n. server (length ([]::search_request list) + k) (request_payload (1 + 1000 * k)) = Document (pages k) \<and>
               findtext (pages k) ''hasMoreRecords'' = Some ''true''"
    using more by simp
  from fetch_loop_pages [OF this, of lower "[]" "lg @ [Fetching]"]
  have a: "fetch_loop lower server 1 [] (lg @ [Fetching]) [] =
           fetch_loop lower server (1 + 1000 * n) ?acc (lg @ [Fetching]) ?sent"
    by simp
  have p: "server (length ?sent) (request_payload (1 + 1000 * n)) = Document (pages n)"
    using page by simp
  have b: "fetch_loop lower server (1 + 1000 * n) ?acc (lg @ [Fetching]) ?sent =
           Some (lg @ [Fetching], ?sent @ [request_payload (1 + 1000 * n)],
                 Inr (?acc @ map (new_row lower) (findall_data_HostAsset (pages n))))"
    by (rule fetch_loop_step_last [of server ?sent "1 + 1000 * n" "pages n", OF p last])
  show ?thesis
    unfolding fetch_cloud_agents_def a b by simp
qed

lemma fetch_cloud_agents_error:
  assumes more: "\<forall>k<n. server k (request_payload (1 + 1000 * k)) = Document (pages k) \<and>
                       findtext (pages k) ''hasMoreRecords'' = Some ''true''"
    and fail: "server n (request_payload (1 + 1000 * n)) = RequestException e"
  shows "fetch_cloud_agents lower to_datetime server lg =
         Some (lg @ [Fetching, FetchError e], map (\<lambda>k. request_payload (1 + 1000 * k)) [0..<Suc n],
               Inr (convert_times to_datetime
                      (concat (map (\<lambda>k. map (new_row lower) (findall_data_HostAsset (pages k)))
                                   [0..<n]))))"
proof -
  let ?sent = "map (\<lambda>k. request_payload (1 + 1000 * k)) [0..<n]"
  let ?acc = "concat (map (\<lambda>k. map (new_row lower) (findall_data_HostAsset (pages k))) [0..<n])"
  have "\<forall>k<n. server (length ([]::search_request list) + k) (request_payload (1 + 1000 * k)) = Document (pages k) \<and>
               findtext (pages k) ''hasMoreRecords'' = Some ''true''"
    using more by simp
  from fetch_loop_pages [OF this, of lower "[]" "lg @ [Fetching]"]
  have a: "fetch_loop lower server 1 [] (lg @ [Fetching]) [] =
           fetch_loop lower server (1 + 1000 * n) ?acc (lg @ [Fetching]) ?sent"
    by simp
  have p: "server (length ?sent) (request_payload (1 + 1000 * n)) = RequestException e"
    using fail by simp
  have b: "fetch_loop lower server (1 + 1000 * n) ?acc (lg @ [Fetching]) ?sent =
           Some ((lg @ [Fetching]) @ [FetchError e], ?sent @ [request_payload (1 + 1000 * n)], Inr ?acc)"
    by (rule fetch_loop_step_error [of server ?sent "1 + 1000 * n" e, OF p])
  show ?thesis
    unfolding fetch_cloud_agents_def a b by simp
qed

lemma complete_run_same_inventory:
  assumes more: "\<forall>k<n. findtext (pages k) ''hasMoreRecords'' = Some ''true''"
  shows "\<exists>server'. (\<forall>i req. \<exists>d. server' i req = Document d) \<and>
           (\<exists>lg' sent'. fetch_cloud_agents lower to_datetime server' lg =
              Some (lg', sent',
                Inr (convert_times to_datetime
                       (concat (map (\<lambda>k. map (new_row lower) (findall_data_HostAsset (pages k)))
                                    [0..<n])))))"
proof -
  let ?empty = "Element [] None []"
  let ?pages = "\<lambda>k. if k < n then pages k else ?empty"
  let ?server = "\<lambda>i (req :: search_request). Document (?pages i)"
  have m: "\<forall>k<n. ?server k (request_payload (1 + 1000 * k)) = Document (?pages k) \<and>
                 findtext (?pages k) ''hasMoreRecords'' = Some ''true''"
    using more by simp
  have p: "?server n (request_payload (1 + 1000 * n)) = Document (?pages n)" by simp
  have l: "findtext (?pages n) ''hasMoreRecords'' \<noteq> Some ''true''"
    by (simp add: findtext_def)
  have rows: "concat (map (\<lambda>k. map (new_row lower) (findall_data_HostAsset (?pages k))) [0..<Suc n]) =
              concat (map (\<lambda>k. map (new_row lower) (findall_data_HostAsset (pages k))) [0..<n])"
  proof -
    let ?f = "\<lambda>k. map (new_row lower) (findall_data_HostAsset (?pages k))"
    let ?g = "\<lambda>k. map (new_row lower) (findall_data_HostAsset (pages k))"
    have e: "?f n = []"
      by (simp add: findall_data_HostAsset_def)
    have e1: "map ?f [0..<n] = map ?g [0..<n]"
      by (rule map_cong) simp_all
    have "concat (map ?f [0..<Suc n]) = concat (map ?f [0..<n]) @ ?f n"
      by (simp del: map_eq_conv)
    also have "\<dots> = concat (map ?g [0..<n])"
      unfolding e e1 by simp
    finally show ?thesis .
  qed
  from fetch_cloud_agents_complete [of n ?server ?pages lower to_datetime lg, OF m p l]
  have "fetch_cloud_agents lower to_datetime ?server lg =
         Some (lg @ [Fetching], map (\<lambda>k. request_payload (1 + 1000 * k)) [0..<Suc n],
               Inr (convert_times to_datetime
                      (concat (map (\<lambda>k. map (new_row lower) (findall_data_HostAsset (pages k)))
                                   [0..<n]))))"
    unfolding rows .
  then show ?thesis by (intro exI [of _ ?server] conjI allI) auto
qed

text \<open>
  Claim C9. The requests ask for the tracking method \<^verbatim>\<open>QAGENT\<close> with a page size of 1000
  from a given offset. When the first \<open>n\<close> requests, at the offsets 1, 1001, 2001, \<open>\<dots>\<close>,
  are answered by documents whose \<^verbatim>\<open>hasMoreRecords\<close> is \<^verbatim>\<open>true\<close> and the next request by
  a document where it is not, the fetcher returns: it has sent exactly these \<open>n + 1\<close>
  requests, and the inventory holds the entries of all \<open>n + 1\<close> pages in order, with the
  time columns converted. Every entry gives one row, with the name lowered and with the
  empty string for a field that the entry does not have.
\<close>

theorem paged_fetch:
  assumes "\<forall>k<n. server k (request_payload (1 + 1000 * k)) = Document (pages k) \<and>
                 findtext (pages k) ''hasMoreRecords'' = Some ''true''"
    and "server n (request_payload (1 + 1000 * n)) = Document (pages n)"
    and "findtext (pages n) ''hasMoreRecords'' \<noteq> Some ''true''"
  shows "fetch_cloud_agents lower to_datetime server lg =
           Some (lg @ [Fetching], map (\<lambda>k. request_payload (1 + 1000 * k)) [0..<Suc n],
                 Inr (convert_times to_datetime
                        (concat (map (\<lambda>k. map (new_row lower) (findall_data_HostAsset (pages k)))
                                     [0..<Suc n])))) \<and>
         request_payload offset =
           \<lparr>tracking_method = ''QAGENT'', limitResults = 1000, startFromOffset = offset\<rparr> \<and>
         new_row lower entry =
           \<lparr>agent_id = findtext_default entry ''id'',
            hostname = lower (findtext_default entry ''name''),
            address = findtext_default entry ''address'',
            created = findtext_default entry ''created'',
            modified = findtext_default entry ''modified''\<rparr> \<and>
         ((\<forall>c \<in> set (elem_children entry). elem_tag c \<noteq> path) \<longrightarrow> findtext_default entry path = [])"
proof (intro conjI impI)
  show "fetch_cloud_agents lower to_datetime server lg =
           Some (lg @ [Fetching], map (\<lambda>k. request_payload (1 + 1000 * k)) [0..<Suc n],
                 Inr (convert_times to_datetime
                        (concat (map (\<lambda>k. map (new_row lower) (findall_data_HostAsset (pages k)))
                                     [0..<Suc n]))))"
    using assms by (rule fetch_cloud_agents_complete)
  show "request_payload offset =
           \<lparr>tracking_method = ''QAGENT'', limitResults = 1000, startFromOffset = offset\<rparr>"
    by (simp add: request_payload_def)
  show "new_row lower entry =
           \<lparr>agent_id = findtext_default entry ''id'',
            hostname = lower (findtext_default entry ''name''),
            address = findtext_default entry ''address'',
            created = findtext_default entry ''created'',
            modified = findtext_default entry ''modified''\<rparr>"
    by (simp add: new_row_def)
  assume "\<forall>c \<in> set (elem_children entry). elem_tag c \<noteq> path"
  then have "find (\<lambda>c. elem_tag c = path) (elem_children entry) = None"
    by (simp add: find_None_iff)
  then show "findtext_default entry path = []"
    by (simp add: findtext_default_def findtext_def)
qed

text \<open>Two pages: the rows of both are returned, the second with the defaults for its missing fields.\<close>

theorem paged_fetch_witness:
  "two_page_server 0 (request_payload 1) = Document (sample_pages 0) \<and>
   findtext (sample_pages 0) ''hasMoreRecords'' = Some ''true'' \<and>
   two_page_server 1 (request_payload 1001) = Document (sample_pages 1) \<and>
   findtext (sample_pages 1) ''hasMoreRecords'' \<noteq> Some ''true'' \<and>
   ''modified'' \<notin> elem_tag ` set (elem_children (host_asset ''2'' ''HOST-A'' ''10.0.0.1'' ''yesterday'')) \<and>
   fetch_cloud_agents ascii_lower sample_to_datetime two_page_server [] =
     Some ([Fetching], [request_payload 1, request_payload 1001],
           Inr [(0, \<lparr>agent_id = ''1'', hostname = ''host-a'', address = ''10.0.0.1'',
                      created = Some 1704067200000000000, modified = None\<rparr>),
                (1, \<lparr>agent_id = ''2'', hostname = ''host-a'', address = ''10.0.0.1'',
                      created = None, modified = None\<rparr>)]) \<and>
   findtext_default (host_asset ''2'' ''HOST-A'' ''10.0.0.1'' ''yesterday'') ''modified'' = []"
proof -
  let ?entry = "host_asset ''2'' ''HOST-A'' ''10.0.0.1'' ''yesterday''"
  have h1: "\<forall>k<1. two_page_server k (request_payload (1 + 1000 * k)) = Document (sample_pages k) \<and>
           findtext (sample_pages k) ''hasMoreRecords'' = Some ''true''"
    by (simp add: two_page_server_def sample_pages_def search_page_def findtext_def)
  have h2: "two_page_server 1 (request_payload (1 + 1000 * 1)) = Document (sample_pages 1)"
    by (simp add: two_page_server_def)
  have h3: "findtext (sample_pages 1) ''hasMoreRecords'' \<noteq> Some ''true''"
    by (simp add: sample_pages_def search_page_def findtext_def)
  have h4: "\<forall>c \<in> set (elem_children ?entry). elem_tag c \<noteq> ''modified''"
    by (simp add: host_asset_def)
  note t = paged_fetch [where n = 1 and server = two_page_server and pages = sample_pages
      and lower = ascii_lower and to_datetime = sample_to_datetime and lg = "[]"
      and entry = ?entry and path = "''modified''", OF h1 h2 h3]
  have rows: "concat (map (\<lambda>k. map (new_row ascii_lower) (findall_data_HostAsset (sample_pages k))) [0..<Suc 1]) =
        [\<lparr>agent_id = ''1'', hostname = ''host-a'', address = ''10.0.0.1'',
          created = ''2024-01-01T00:00:00Z'', modified = ''''\<rparr>,
         \<lparr>agent_id = ''2'', hostname = ''host-a'', address = ''10.0.0.1'',
          created = ''yesterday'', modified = ''''\<rparr>]"
    by (simp add: sample_pages_def search_page_def host_asset_def findall_data_HostAsset_def
        new_row_def findtext_default_def findtext_def ascii_lower_def)
  have c1: "fetch_cloud_agents ascii_lower sample_to_datetime two_page_server [] =
     Some ([Fetching], [request_payload 1, request_payload 1001],
           Inr [(0, \<lparr>agent_id = ''1'', hostname = ''host-a'', address = ''10.0.0.1'',
                      created = Some 1704067200000000000, modified = None\<rparr>),
                (1, \<lparr>agent_id = ''2'', hostname = ''host-a'', address = ''10.0.0.1'',
                      created = None, modified = None\<rparr>)])"
    using t [THEN conjunct1] unfolding rows
    by (simp add: convert_times_def sample_to_datetime_def upt_rec)
  have c2: "findtext_default ?entry ''modified'' = []"
    using t [THEN conjunct2, THEN conjunct2, THEN conjunct2] h4 by (rule mp)
  have g1: "two_page_server 0 (request_payload 1) = Document (sample_pages 0)"
    and g2: "findtext (sample_pages 0) ''hasMoreRecords'' = Some ''true''"
    and g3: "two_page_server 1 (request_payload 1001) = Document (sample_pages 1)"
    and g4: "''modified'' \<notin> elem_tag ` set (elem_children ?entry)"
    using h1 h2 h4 by auto
  from g1 g2 g3 h3 g4 c1 c2 show ?thesis by (intro conjI)
qed

text \<open>
  Claim C6. When the first \<open>n\<close> requests are answered by documents with more records and
  the next request fails with a \<^verbatim>\<open>RequestException\<close>, the fetcher returns (no exception
  leaves it): the error is logged, no further request is sent, and the inventory holds the
  entries of the \<open>n\<close> pages fetched. The same inventory is returned by a run against a
  remote side that never fails, so nothing in the value returned tells the truncated
  inventory from a complete one.
\<close>

theorem fetch_transport_error:
  assumes "\<forall>k<n. server k (request_payload (1 + 1000 * k)) = Document (pages k) \<and>
                 findtext (pages k) ''hasMoreRecords'' = Some ''true''"
    and "server n (request_payload (1 + 1000 * n)) = RequestException e"
  shows "fetch_cloud_agents lower to_datetime server lg =
           Some (lg @ [Fetching, FetchError e], map (\<lambda>k. request_payload (1 + 1000 * k)) [0..<Suc n],
                 Inr (convert_times to_datetime
                        (concat (map (\<lambda>k. map (new_row lower) (findall_data_HostAsset (pages k)))
                                     [0..<n])))) \<and>
         (\<exists>server'. (\<forall>i req. \<exists>d. server' i req = Document d) \<and>
            (\<exists>lg' sent'. fetch_cloud_agents lower to_datetime server' lg =
               Some (lg', sent',
                 Inr (convert_times to_datetime
                        (concat (map (\<lambda>k. map (new_row lower) (findall_data_HostAsset (pages k)))
                                     [0..<n]))))))"
proof
  show "fetch_cloud_agents lower to_datetime server lg =
           Some (lg @ [Fetching, FetchError e], map (\<lambda>k. request_payload (1 + 1000 * k)) [0..<Suc n],
                 Inr (convert_times to_datetime
                        (concat (map (\<lambda>k. map (new_row lower) (findall_data_HostAsset (pages k)))
                                     [0..<n]))))"
    using assms by (rule fetch_cloud_agents_error)
  from assms(1) have "\<forall>k<n. findtext (pages k) ''hasMoreRecords'' = Some ''true''" by simp
  then show "\<exists>server'. (\<forall>i req. \<exists>d. server' i req = Document d) \<and>
            (\<exists>lg' sent'. fetch_cloud_agents lower to_datetime server' lg =
               Some (lg', sent',
                 Inr (convert_times to_datetime
                        (concat (map (\<lambda>k. map (new_row lower) (findall_data_HostAsset (pages k)))
                                     [0..<n])))))"
    by (rule complete_run_same_inventory)
qed

text \<open>The second request fails: the row of the first page is returned and the error is logged.\<close>

theorem fetch_transport_error_witness:
  "failing_server 0 (request_payload 1) = Document (sample_pages 0) \<and>
   findtext (sample_pages 0) ''hasMoreRecords'' = Some ''true'' \<and>
   failing_server 1 (request_payload 1001) = RequestException ''503 Server Error'' \<and>
   fetch_cloud_agents ascii_lower sample_to_datetime failing_server [] =
     Some ([Fetching, FetchError ''503 Server Error''], [request_payload 1, request_payload 1001],
           Inr [(0, \<lparr>agent_id = ''1'', hostname = ''host-a'', address = ''10.0.0.1'',
                      created = Some 1704067200000000000, modified = None\<rparr>)])"
proof -
  have h1: "\<forall>k<1. failing_server k (request_payload (1 + 1000 * k)) = Document (sample_pages k) \<and>
           findtext (sample_pages k) ''hasMoreRecords'' = Some ''true''"
    by (simp add: failing_server_def sample_pages_def search_page_def findtext_def)
  have h2: "failing_server 1 (request_payload (1 + 1000 * 1)) = RequestException ''503 Server Error''"
    by (simp add: failing_server_def)
  note t = fetch_transport_error [where n = 1 and server = failing_server and pages = sample_pages
      and lower = ascii_lower and to_datetime = sample_to_datetime and lg = "[]", OF h1 h2]
  have rows: "concat (map (\<lambda>k. map (new_row ascii_lower) (findall_data_HostAsset (sample_pages k))) [0..<1]) =
        [\<lparr>agent_id = ''1'', hostname = ''host-a'', address = ''10.0.0.1'',
          created = ''2024-01-01T00:00:00Z'', modified = ''''\<rparr>]"
    by (simp add: sample_pages_def search_page_def host_asset_def findall_data_HostAsset_def
        new_row_def findtext_default_def findtext_def ascii_lower_def)
  have c: "fetch_cloud_agents ascii_lower sample_to_datetime failing_server [] =
     Some ([Fetching, FetchError ''503 Server Error''], [request_payload 1, request_payload 1001],
           Inr [(0, \<lparr>agent_id = ''1'', hostname = ''host-a'', address = ''10.0.0.1'',
                      created = Some 1704067200000000000, modified = None\<rparr>)])"
    using t [THEN conjunct1] unfolding rows
    by (simp add: convert_times_def sample_to_datetime_def upt_rec)
  have g1: "failing_server 0 (request_payload 1) = Document (sample_pages 0)"
    and g2: "findtext (sample_pages 0) ''hasMoreRecords'' = Some ''true''"
    and g3: "failing_server 1 (request_payload 1001) = RequestException ''503 Server Error''"
    using h1 h2 by auto
  from g1 g2 g3 c show ?thesis by (intro conjI)
qed

section \<open>Missing times\<close>

lemma null_modified_after:
  assumes "key_of r = key_of r'" and "modified (snd r) = None" and "modified (snd r') = Some m"
  shows "lexsort_key r' < lexsort_key r"
  using assms by (simp add: lexsort_key_def key_of_def modified_code_def)

lemma null_created_after:
  assumes "key_of r = key_of r'" and "modified (snd r) = modified (snd r')"
    and "created (snd r) = None" and "created (snd r') = Some c"
  shows "lexsort_key r' < lexsort_key r"
  using assms by (simp add: lexsort_key_def key_of_def created_code_def)

lemma zip4_columns:
  assumes "length cs = length xs" and "length ms = length xs"
  shows "map (\<lambda>(i, a, c, m). c) (zip [0..<length xs] (zip xs (zip cs ms))) = cs"
    and "map (\<lambda>(i, a, c, m). m) (zip [0..<length xs] (zip xs (zip cs ms))) = ms"
proof -
  have f: "(\<lambda>(i :: nat, a :: 'b, c :: 'a, m :: 'c). c) = fst \<circ> snd \<circ> snd"
    and g: "(\<lambda>(i :: nat, a :: 'b, c :: 'a, m :: 'c). m) = snd \<circ> snd \<circ> snd"
    by (auto simp: fun_eq_iff)
  have l1: "length [0..<length xs] = length (zip xs (zip cs ms))" using assms by simp
  have l2: "length xs = length (zip cs ms)" using assms by simp
  have l3: "length cs = length ms" using assms by simp
  have s: "map snd (map snd (zip [0..<length xs] (zip xs (zip cs ms)))) = zip cs ms"
    by (simp only: map_snd_zip [OF l1] map_snd_zip [OF l2])
  show "map (\<lambda>(i, a, c, m). c) (zip [0..<length xs] (zip xs (zip cs ms))) = cs"
    unfolding f using s l3 by (simp flip: map_map)
  show "map (\<lambda>(i, a, c, m). m) (zip [0..<length xs] (zip xs (zip cs ms))) = ms"
    unfolding g using s l3 by (simp flip: map_map)
qed

lemma convert_times_columns:
  assumes "length (to_datetime (map created raw)) = length raw"
    and "length (to_datetime (map modified raw)) = length raw"
  shows "map (created \<circ> snd) (convert_times to_datetime raw) = to_datetime (map created raw)"
    and "map (modified \<circ> snd) (convert_times to_datetime raw) = to_datetime (map modified raw)"
  using zip4_columns [OF assms]
  by (simp_all add: convert_times_def comp_def case_prod_unfold)

lemma convert_times_pd_to_datetime:
  "map (created \<circ> snd) (convert_times (pd_to_datetime parse) raw) =
     map (\<lambda>s. utc_naive (parse (map created raw) s)) (map created raw)"
  "map (modified \<circ> snd) (convert_times (pd_to_datetime parse) raw) =
     map (\<lambda>s. utc_naive (parse (map modified raw) s)) (map modified raw)"
proof -
  have l: "length (pd_to_datetime parse (map created raw)) = length raw"
    "length (pd_to_datetime parse (map modified raw)) = length raw"
    by (simp_all add: pd_to_datetime_def)
  have e1: "pd_to_datetime parse (map created raw) =
      map (\<lambda>s. utc_naive (parse (map created raw) s)) (map created raw)"
    and e2: "pd_to_datetime parse (map modified raw) =
      map (\<lambda>s. utc_naive (parse (map modified raw) s)) (map modified raw)"
    by (simp_all only: pd_to_datetime_def)
  show "map (created \<circ> snd) (convert_times (pd_to_datetime parse) raw) =
     map (\<lambda>s. utc_naive (parse (map created raw) s)) (map created raw)"
    using convert_times_columns(1) [OF l] e1 by (rule trans)
  show "map (modified \<circ> snd) (convert_times (pd_to_datetime parse) raw) =
     map (\<lambda>s. utc_naive (parse (map modified raw) s)) (map modified raw)"
    using convert_times_columns(2) [OF l] e2 by (rule trans)
qed

text \<open>
  Claim C5, as amended. The time columns of the inventory are the values of the conversion
  call, one for each string: a string the library cannot read becomes a missing value, a
  time with an offset is converted to UTC, a time without one is taken as UTC, and the
  value kept is that UTC time without a zone. The selector's sort is sorted by the key of
  the code and stable: rows with equal keys, those tied at a missing time among them, keep
  their order. A missing time sorts last in both columns: a row without a modified time
  comes after every row of its group with one (as the earliest possible value does in the
  descending column), and among rows modified at the same time a row without a created
  time comes after every row with one (as the latest possible value does in the ascending
  column).
\<close>

theorem null_sorts_last:
  "sorted (map lexsort_key (sort_values df)) \<and>
   filter (\<lambda>x. lexsort_key x = k) (sort_values df) = filter (\<lambda>x. lexsort_key x = k) df \<and>
   (key_of r = key_of r' \<and> modified (snd r) = None \<and> modified (snd r') = Some m \<longrightarrow>
      lexsort_key r' < lexsort_key r) \<and>
   (key_of r = key_of r' \<and> modified (snd r) = modified (snd r') \<and>
    created (snd r) = None \<and> created (snd r') = Some c \<longrightarrow>
      lexsort_key r' < lexsort_key r) \<and>
   map (created \<circ> snd) (convert_times (pd_to_datetime parse) raw) =
     map (\<lambda>s. utc_naive (parse (map created raw) s)) (map created raw) \<and>
   map (modified \<circ> snd) (convert_times (pd_to_datetime parse) raw) =
     map (\<lambda>s. utc_naive (parse (map modified raw) s)) (map modified raw) \<and>
   (parse column s = None \<longrightarrow> utc_naive (parse column s) = None) \<and>
   (parse column s = Some (wall, None) \<longrightarrow> utc_naive (parse column s) = Some wall) \<and>
   (parse column s = Some (wall, Some offset) \<longrightarrow>
      utc_naive (parse column s) = Some (wall - offset))"
proof (intro conjI impI)
  show "sorted (map lexsort_key (sort_values df))" by (rule sorted_sort_values)
  show "filter (\<lambda>x. lexsort_key x = k) (sort_values df) = filter (\<lambda>x. lexsort_key x = k) df"
    unfolding sort_values_def by (rule sort_key_stable)
  show "lexsort_key r' < lexsort_key r"
    if "key_of r = key_of r' \<and> modified (snd r) = None \<and> modified (snd r') = Some m"
    using that null_modified_after [of r r' m] by simp
  show "lexsort_key r' < lexsort_key r"
    if "key_of r = key_of r' \<and> modified (snd r) = modified (snd r') \<and>
        created (snd r) = None \<and> created (snd r') = Some c"
    using that null_created_after [of r r' c] by simp
  show "map (created \<circ> snd) (convert_times (pd_to_datetime parse) raw) =
     map (\<lambda>s. utc_naive (parse (map created raw) s)) (map created raw)"
    by (rule convert_times_pd_to_datetime)
  show "map (modified \<circ> snd) (convert_times (pd_to_datetime parse) raw) =
     map (\<lambda>s. utc_naive (parse (map modified raw) s)) (map modified raw)"
    by (rule convert_times_pd_to_datetime)
  show "utc_naive (parse column s) = None" if "parse column s = None"
    using that by (simp add: utc_naive_def)
  show "utc_naive (parse column s) = Some wall" if "parse column s = Some (wall, None)"
    using that by (simp add: utc_naive_def)
  show "utc_naive (parse column s) = Some (wall - offset)"
    if "parse column s = Some (wall, Some offset)"
    using that by (simp add: utc_naive_def)
qed

text \<open>
  Claim C5 as stated fails for the created column. Of two rows of one group modified at the
  same time, the row without a created time is sorted after the row created at time 7, and
  it is the one marked for removal; under the order of the specification it would come
  first and be retained.
\<close>

theorem null_created_counterexample:
  "sort_values null_times_inventory =
     [null_times_inventory ! 1, null_times_inventory ! 0, null_times_inventory ! 2] \<and>
   spec_sort_values null_times_inventory = null_times_inventory \<and>
   sort_values null_times_inventory \<noteq> spec_sort_values null_times_inventory \<and>
   snd (find_duplicate_agents [] null_times_inventory) =
     [null_times_inventory ! 0, null_times_inventory ! 2]"
  by (simp add: null_times_inventory_def sort_values_def spec_sort_values_def lexsort_key_def
      spec_lexsort_key_def modified_code_def created_code_def spec_created_code_def
      find_duplicate_agents_def duplicated_def key_of_def)

text \<open>
  The amended claim at the three records without times, and at three rows read with the
  reader of the wire format: the three created times, one instant written with \<^verbatim>\<open>Z\<close>,
  with the offset \<^verbatim>\<open>+02:00\<close> and without a zone, become the same value, and the three
  modified times, none of which can be read, become missing values.
\<close>

theorem null_sorts_last_witness:
  "key_of (null_times_inventory ! 2) = key_of (null_times_inventory ! 0) \<and>
   modified (snd (null_times_inventory ! 2)) = None \<and>
   modified (snd (null_times_inventory ! 0)) = Some 5 \<and>
   lexsort_key (null_times_inventory ! 0) < lexsort_key (null_times_inventory ! 2) \<and>
   key_of (null_times_inventory ! 0) = key_of (null_times_inventory ! 1) \<and>
   modified (snd (null_times_inventory ! 0)) = modified (snd (null_times_inventory ! 1)) \<and>
   created (snd (null_times_inventory ! 0)) = None \<and>
   created (snd (null_times_inventory ! 1)) = Some 7 \<and>
   lexsort_key (null_times_inventory ! 1) < lexsort_key (null_times_inventory ! 0) \<and>
   iso8601 (map modified zoned_rows) ''never'' = None \<and>
   utc_naive (iso8601 (map modified zoned_rows) ''never'') = None \<and>
   iso8601 (map created zoned_rows) ''2024-01-01T00:00:00'' = Some (1704067200000000000, None) \<and>
   utc_naive (iso8601 (map created zoned_rows) ''2024-01-01T00:00:00'') = Some 1704067200000000000 \<and>
   iso8601 (map created zoned_rows) ''2024-01-01T02:00:00+02:00'' =
     Some (1704074400000000000, Some 7200000000000) \<and>
   utc_naive (iso8601 (map created zoned_rows) ''2024-01-01T02:00:00+02:00'') =
     Some (1704074400000000000 - 7200000000000) \<and>
   map (created \<circ> snd) (convert_times (pd_to_datetime iso8601) zoned_rows) =
     [Some 1704067200000000000, Some 1704067200000000000, Some 1704067200000000000] \<and>
   map (modified \<circ> snd) (convert_times (pd_to_datetime iso8601) zoned_rows) = [None, None, None]"
proof -
  let ?X = null_times_inventory
  have a1: "key_of (?X ! 2) = key_of (?X ! 0)"
    and a2: "modified (snd (?X ! 2)) = None"
    and a3: "modified (snd (?X ! 0)) = Some 5"
    by (simp_all add: null_times_inventory_def key_of_def)
  have b1: "key_of (?X ! 0) = key_of (?X ! 1)"
    and b2: "modified (snd (?X ! 0)) = modified (snd (?X ! 1))"
    and b3: "created (snd (?X ! 0)) = None"
    and b4: "created (snd (?X ! 1)) = Some 7"
    by (simp_all add: null_times_inventory_def key_of_def)
  have p1: "iso8601 (map modified zoned_rows) ''never'' = None"
    by code_simp
  have p2: "iso8601 (map created zoned_rows) ''2024-01-01T00:00:00'' =
      Some (1704067200000000000, None)"
    by code_simp
  have p3: "iso8601 (map created zoned_rows) ''2024-01-01T02:00:00+02:00'' =
      Some (1704074400000000000, Some 7200000000000)"
    by code_simp
  have cs: "map (\<lambda>s. utc_naive (iso8601 (map created zoned_rows) s)) (map created zoned_rows) =
      [Some 1704067200000000000, Some 1704067200000000000, Some 1704067200000000000]"
    by code_simp
  have ms: "map (\<lambda>s. utc_naive (iso8601 (map modified zoned_rows) s)) (map modified zoned_rows) =
      [None, None, None]"
    by code_simp
  note t1 = null_sorts_last [where r = "?X ! 2" and r' = "?X ! 0" and m = 5
      and parse = iso8601 and column = "map modified zoned_rows" and s = "''never''"]
  note t2 = null_sorts_last [where r = "?X ! 0" and r' = "?X ! 1" and c = 7
      and parse = iso8601 and raw = zoned_rows and column = "map created zoned_rows"
      and s = "''2024-01-01T00:00:00''" and wall = 1704067200000000000]
  note t3 = null_sorts_last [where parse = iso8601 and column = "map created zoned_rows"
      and s = "''2024-01-01T02:00:00+02:00''" and wall = 1704074400000000000
      and offset = 7200000000000]
  have d1: "lexsort_key (?X ! 0) < lexsort_key (?X ! 2)"
    using t1 [THEN conjunct2, THEN conjunct2, THEN conjunct1] a1 a2 a3 by simp
  have d2: "lexsort_key (?X ! 1) < lexsort_key (?X ! 0)"
    using t2 [THEN conjunct2, THEN conjunct2, THEN conjunct2, THEN conjunct1] b1 b2 b3 b4 by simp
  have d3: "map (created \<circ> snd) (convert_times (pd_to_datetime iso8601) zoned_rows) =
     [Some 1704067200000000000, Some 1704067200000000000, Some 1704067200000000000]"
    using t2 [THEN conjunct2, THEN conjunct2, THEN conjunct2, THEN conjunct2, THEN conjunct1]
    unfolding cs .
  have d4: "map (modified \<circ> snd) (convert_times (pd_to_datetime iso8601) zoned_rows) = [None, None, None]"
    using t2 [THEN conjunct2, THEN conjunct2, THEN conjunct2, THEN conjunct2, THEN conjunct2,
        THEN conjunct1]
    unfolding ms .
  have q1: "utc_naive (iso8601 (map modified zoned_rows) ''never'') = None"
    using t1 [THEN conjunct2, THEN conjunct2, THEN conjunct2, THEN conjunct2, THEN conjunct2,
        THEN conjunct2, THEN conjunct1] p1 by (rule mp)
  have q2: "utc_naive (iso8601 (map created zoned_rows) ''2024-01-01T00:00:00'') =
      Some 1704067200000000000"
    using t2 [THEN conjunct2, THEN conjunct2, THEN conjunct2, THEN conjunct2, THEN conjunct2,
        THEN conjunct2, THEN conjunct2, THEN conjunct1] p2 by (rule mp)
  have q3: "utc_naive (iso8601 (map created zoned_rows) ''2024-01-01T02:00:00+02:00'') =
      Some (1704074400000000000 - 7200000000000)"
    using t3 [THEN conjunct2, THEN conjunct2, THEN conjunct2, THEN conjunct2, THEN conjunct2,
        THEN conjunct2, THEN conjunct2, THEN conjunct2] p3 by (rule mp)
  from a1 a2 a3 d1 b1 b2 b3 b4 d2 p1 q1 p2 q2 p3 q3 d3 d4 show ?thesis by (intro conjI)
qed

end
